theory Spec2Isabelle
  imports Complex_Main
begin

section \<open>Python values used by the quiz pipeline\<close>

text \<open>
  A Python \<^verbatim>\<open>str\<close> is a sequence of Unicode code points. The marker phrase of the
  solver contains U+201C and U+201D, so characters are natural numbers rather than the
  8-bit \<^typ>\<open>char\<close>; \<open>str\<close> embeds an ASCII literal.
\<close>

type_synonym pystr = "nat list"

definition str :: "string \<Rightarrow> pystr" where
  "str s = map of_char s"

text \<open>\<^verbatim>\<open>s.startswith(p)\<close> and \<^verbatim>\<open>p in s\<close> on sequences.\<close>

fun startswith :: "'a list \<Rightarrow> 'a list \<Rightarrow> bool" where
  "startswith s [] = True"
| "startswith [] (p # ps) = False"
| "startswith (c # cs) (p # ps) = (c = p \<and> startswith cs ps)"

fun contains :: "'a list \<Rightarrow> 'a list \<Rightarrow> bool" where
  "contains p [] = (p = [])"
| "contains p (c # cs) = (startswith (c # cs) p \<or> contains p cs)"

text \<open>\<^verbatim>\<open>s.split(d)\<close> for a one-character separator: never empty, one more piece than
  separators.\<close>

fun split_on :: "'a \<Rightarrow> 'a list \<Rightarrow> 'a list list" where
  "split_on d [] = [[]]"
| "split_on d (c # cs) =
     (if c = d then [] # split_on d cs
      else (case split_on d cs of
              w # ws \<Rightarrow> (c # w) # ws
            | [] \<Rightarrow> [[c]]))"

text \<open>
  A Python float is an IEEE 754 binary64 value: a finite value (given by the rational it
  denotes; the two zeros, which compare equal, are one value here), an infinity or NaN.
\<close>

datatype pyfloat = Fin rat | PInf | NInf | NaN

text \<open>The number of binary digits of a positive integer.\<close>

function bit_length :: "int \<Rightarrow> int" where
  "bit_length n = (if n \<le> 0 then 0 else 1 + bit_length (n div 2))"
  by auto
termination
  by (relation "measure nat") auto

declare bit_length.simps [simp del]

text \<open>\<open>ilog2 a\<close> is the integer \<open>k\<close> with \<open>2\<^sup>k \<le> a < 2\<^sup>k\<^sup>+\<^sup>1\<close>, for a positive \<open>a\<close>.\<close>

definition ilog2 :: "rat \<Rightarrow> int" where
  "ilog2 a =
     (if 1 \<le> a then bit_length \<lfloor>a\<rfloor> - 1
      else - bit_length (\<lceil>1 / a\<rceil> - 1))"

definition round_half_even :: "rat \<Rightarrow> int" where
  "round_half_even q =
     (let f = \<lfloor>q\<rfloor>; d = q - of_int f
      in if d < 1 / 2 then f else if 1 / 2 < d then f + 1 else if even f then f else f + 1)"

definition scale2 :: "rat \<Rightarrow> int \<Rightarrow> rat" where
  "scale2 x e = (if 0 \<le> e then x * 2 ^ nat e else x / 2 ^ nat (- e))"

text \<open>
  Rounding to the nearest binary64 value, ties to the even significand: 53 binary digits,
  the least exponent of a unit in the last place \<open>-1074\<close> (below it values are
  subnormal), and an infinity from \<open>2\<^sup>1\<^sup>0\<^sup>2\<^sup>4\<close> on.
\<close>

definition double_of_rat :: "rat \<Rightarrow> pyfloat" where
  "double_of_rat x =
     (if x = 0 then Fin 0
      else
        (let a = \<bar>x\<bar>;
             e = max (ilog2 a - 52) (- 1074);
             m = round_half_even (scale2 a (- e));
             v = scale2 (of_int m) e
         in if 2 ^ 1024 \<le> v then (if 0 < x then PInf else NInf)
            else Fin (sgn x * v)))"

definition as_double :: "pyfloat \<Rightarrow> pyfloat" where
  "as_double x = (case x of Fin r \<Rightarrow> double_of_rat r | _ \<Rightarrow> x)"

text \<open>The addition of two floats: the exact sum, rounded.\<close>

fun fadd :: "pyfloat \<Rightarrow> pyfloat \<Rightarrow> pyfloat" where
  "fadd (Fin a) (Fin b) = double_of_rat (a + b)"
| "fadd NaN y = NaN"
| "fadd x NaN = NaN"
| "fadd PInf NInf = NaN"
| "fadd NInf PInf = NaN"
| "fadd PInf y = PInf"
| "fadd x PInf = PInf"
| "fadd NInf y = NInf"
| "fadd x NInf = NInf"

text \<open>The exceptions of the pipeline, all subclasses of Python's \<^verbatim>\<open>Exception\<close>.
  \<open>isinstance_exn e c\<close> is \<^verbatim>\<open>isinstance(e, c)\<close>: \<^verbatim>\<open>requests.RequestException\<close> derives from
  \<^verbatim>\<open>IOError\<close>; the \<^verbatim>\<open>JSONDecodeError\<close> of the pipeline is the one \<^verbatim>\<open>response.json()\<close> raises,
  which derives from \<^verbatim>\<open>json.JSONDecodeError\<close> (a \<^verbatim>\<open>ValueError\<close>) and from
  \<^verbatim>\<open>RequestException\<close>; pydantic's \<^verbatim>\<open>ValidationError\<close> is a \<^verbatim>\<open>ValueError\<close>.\<close>

datatype exn =
    RequestException | JSONDecodeError | KeyError | ValueError | TypeError
  | IndexError | AttributeError | IOError | PDFSyntaxError | ValidationError
  | PlaywrightError | OtherException

definition isinstance_exn :: "exn \<Rightarrow> exn \<Rightarrow> bool" where
  "isinstance_exn e c =
     (e = c \<or> (e = JSONDecodeError \<and> (c = ValueError \<or> c = RequestException \<or> c = IOError))
            \<or> (e = ValidationError \<and> c = ValueError)
            \<or> (e = RequestException \<and> c = IOError))"

text \<open>JSON documents as \<^verbatim>\<open>response.json()\<close> returns them, and Python truthiness on them.\<close>

datatype json =
    JNull | JBool bool | JNum pyfloat | JStr pystr | JArr "json list"
  | JObj "(pystr \<times> json) list"

fun truthy :: "json \<Rightarrow> bool" where
  "truthy JNull = False"
| "truthy (JBool b) = b"
| "truthy (JNum x) = (x \<noteq> Fin 0)"
| "truthy (JStr s) = (s \<noteq> [])"
| "truthy (JArr xs) = (xs \<noteq> [])"
| "truthy (JObj kvs) = (kvs \<noteq> [])"

section \<open>Quiz Parser: URL recognition\<close>

text \<open>
  The pattern of \<^verbatim>\<open>re.findall\<close> is
  \<^verbatim>\<open>https?://(?:[-\w.]|(?:%[\da-fA-F]{2}))+\<close>.
  On a \<^verbatim>\<open>str\<close> pattern \<^verbatim>\<open>\w\<close> is every code point with \<^verbatim>\<open>isalnum()\<close> and the
  underscore, and \<^verbatim>\<open>\d\<close> every decimal digit of Unicode. Both are exact here on ASCII;
  beyond ASCII they are read from the Unicode tables, a parameter.
\<close>

record ucd =
  isalnum :: "nat \<Rightarrow> bool"
  isdecimal :: "nat \<Rightarrow> bool"

definition ascii_digit :: "nat \<Rightarrow> bool" where
  "ascii_digit c = (48 \<le> c \<and> c \<le> 57)"

definition ascii_alnum :: "nat \<Rightarrow> bool" where
  "ascii_alnum c = (ascii_digit c \<or> (65 \<le> c \<and> c \<le> 90) \<or> (97 \<le> c \<and> c \<le> 122))"

definition alnum_char :: "ucd \<Rightarrow> nat \<Rightarrow> bool" where
  "alnum_char u c = (if c < 128 then ascii_alnum c else isalnum u c)"

definition word_char :: "ucd \<Rightarrow> nat \<Rightarrow> bool" where
  "word_char u c = (alnum_char u c \<or> c = 95)"

definition hex_char :: "ucd \<Rightarrow> nat \<Rightarrow> bool" where
  "hex_char u c =
     ((if c < 128 then ascii_digit c else isdecimal u c)
      \<or> (97 \<le> c \<and> c \<le> 102) \<or> (65 \<le> c \<and> c \<le> 70))"

text \<open>The greedy repetition: the longest run of \<^verbatim>\<open>[-\w.]\<close> characters and \<^verbatim>\<open>%hh\<close>
  escapes at the front of the text, and the text left over. Nothing follows the
  repetition in the pattern, so the longest run is the match.\<close>

fun url_body :: "ucd \<Rightarrow> pystr \<Rightarrow> pystr \<times> pystr" where
  "url_body u [] = ([], [])"
| "url_body u (c # cs) =
     (if c = 45 \<or> word_char u c \<or> c = 46 then
        (case url_body u cs of (m, r) \<Rightarrow> (c # m, r))
      else if c = 37 then
        (case cs of
           h1 # h2 # cs' \<Rightarrow>
             if hex_char u h1 \<and> hex_char u h2 then
               (case url_body u cs' of (m, r) \<Rightarrow> (c # h1 # h2 # m, r))
             else ([], c # cs)
         | _ \<Rightarrow> ([], c # cs))
      else ([], c # cs))"

text \<open>One match attempt at the front of the text: the match and the rest after it.\<close>

definition match_url :: "ucd \<Rightarrow> pystr \<Rightarrow> (pystr \<times> pystr) option" where
  "match_url u s =
     (let scheme = (if startswith s (str ''https://'') then Some (str ''https://'')
                    else if startswith s (str ''http://'') then Some (str ''http://'')
                    else None)
      in case scheme of
           None \<Rightarrow> None
         | Some p \<Rightarrow>
             (case url_body u (drop (length p) s) of
                (m, r) \<Rightarrow> if m = [] then None else Some (p @ m, r)))"

lemma url_body_length: "url_body u s = (m, r) \<Longrightarrow> length r \<le> length s"
proof (induction u s arbitrary: m r rule: url_body.induct)
  case (1 u)
  then show ?case by simp
next
  case (2 u c cs)
  then show ?case
    by (auto split: if_splits prod.splits list.splits) fastforce+
qed

lemma startswith_length: "startswith s p \<Longrightarrow> length p \<le> length s"
  by (induction s p rule: startswith.induct) auto

lemma match_url_shorter:
  assumes "match_url u s = Some (m, r)"
  shows "length r < length s"
proof -
  from assms obtain p b where p: "startswith s p" "p \<noteq> []"
    and b: "url_body u (drop (length p) s) = (b, r)"
    by (auto simp: match_url_def Let_def str_def split: if_splits prod.splits)
  from url_body_length [OF b] have "length r \<le> length s - length p" by simp
  moreover from p startswith_length [OF p(1)] have "0 < length p" "length p \<le> length s"
    by auto
  ultimately show ?thesis by linarith
qed

text \<open>\<^verbatim>\<open>re.findall\<close>: the matches from left to right, each search resuming where the
  previous match ended.\<close>

function findall_urls :: "ucd \<Rightarrow> pystr \<Rightarrow> pystr list" where
  "findall_urls u [] = []"
| "findall_urls u (c # cs) =
     (case match_url u (c # cs) of
        Some (m, r) \<Rightarrow> m # findall_urls u r
      | None \<Rightarrow> findall_urls u cs)"
  by pat_completeness auto
termination
  by (relation "measure (\<lambda>(u, s). length s)") (auto dest: match_url_shorter)

text \<open>The selection loop:
  \<^verbatim>\<open>for url in urls: if "submit" in url: submission_url = url; break\<close>.\<close>

fun select_submission :: "pystr list \<Rightarrow> pystr option" where
  "select_submission [] = None"
| "select_submission (url # urls) =
     (if contains (str ''submit'') url then Some url else select_submission urls)"

section \<open>Quiz Solver: the sum of the value column\<close>

text \<open>
  Both table extractors return a list of rows, the first the header; a cell is a string
  or \<^verbatim>\<open>None\<close> (an empty cell).
\<close>

type_synonym cell = "pystr option"
type_synonym table = "cell list list"

definition value_name :: cell where
  "value_name = Some (str ''value'')"

subsection \<open>api/index.py: PyMuPDF rows and a Python loop\<close>

text \<open>\<^verbatim>\<open>header.index("value")\<close>: the first position, \<open>None\<close> for the \<^verbatim>\<open>ValueError\<close>.\<close>

fun index_of :: "'a \<Rightarrow> 'a list \<Rightarrow> nat option" where
  "index_of x [] = None"
| "index_of x (y # ys) = (if y = x then Some 0 else map_option Suc (index_of x ys))"

text \<open>\<^verbatim>\<open>float(cell)\<close>: \<^verbatim>\<open>TypeError\<close> on \<^verbatim>\<open>None\<close>. On a string the grammar of the builtin is a
  parameter: \<open>fl\<close> gives the number that the string denotes (\<open>None\<close> standing for the
  \<^verbatim>\<open>ValueError\<close>), and the float is that number rounded.\<close>

definition py_float :: "(pystr \<Rightarrow> pyfloat option) \<Rightarrow> cell \<Rightarrow> exn + pyfloat" where
  "py_float fl c =
     (case c of
        None \<Rightarrow> Inl TypeError
      | Some s \<Rightarrow> (case fl s of None \<Rightarrow> Inl ValueError | Some v \<Rightarrow> Inr (as_double v)))"

text \<open>
  \<^verbatim>\<open>for row in rows: try: total_sum += float(row[value_index])\<close>
  \<^verbatim>\<open>except (ValueError, TypeError): continue\<close>.
  A row too short for the index raises \<^verbatim>\<open>IndexError\<close>, which the loop does not catch.
\<close>

fun sum_rows :: "(pystr \<Rightarrow> pyfloat option) \<Rightarrow> nat \<Rightarrow> cell list list \<Rightarrow> pyfloat \<Rightarrow> exn + pyfloat" where
  "sum_rows fl i [] total_sum = Inr total_sum"
| "sum_rows fl i (row # rows) total_sum =
     (if i < length row then
        (case py_float fl (row ! i) of
           Inr v \<Rightarrow> sum_rows fl i rows (fadd total_sum v)
         | Inl e \<Rightarrow>
             if isinstance_exn e ValueError \<or> isinstance_exn e TypeError
             then sum_rows fl i rows total_sum
             else Inl e)
      else Inl IndexError)"

text \<open>From \<^verbatim>\<open>table_data\<close> to the answer: \<^verbatim>\<open>table_data[0]\<close> raises on an empty table, a
  header without \<^verbatim>\<open>"value"\<close> raises \<^verbatim>\<open>ValueError\<close> (handled where it is raised).\<close>

definition fitz_answer :: "(pystr \<Rightarrow> pyfloat option) \<Rightarrow> table \<Rightarrow> exn + pyfloat" where
  "fitz_answer fl table_data =
     (case table_data of
        [] \<Rightarrow> Inl IndexError
      | header # rows \<Rightarrow>
          (case index_of value_name header of
             None \<Rightarrow> Inl ValueError
           | Some value_index \<Rightarrow> sum_rows fl value_index rows (Fin 0)))"

subsection \<open>main.py: pdfplumber rows in a pandas frame\<close>

text \<open>
  \<^verbatim>\<open>pd.DataFrame(table[1:], columns=table[0])\<close>: rows shorter than the longest are
  filled with \<^verbatim>\<open>None\<close>; a longest row that differs from the number of column names is a
  \<^verbatim>\<open>ValueError\<close>; no rows give an empty frame.
\<close>

definition data_frame :: "cell list list \<Rightarrow> cell list \<Rightarrow> exn + cell list list" where
  "data_frame rows columns =
     (let width = fold max (map length rows) 0 in
      if rows \<noteq> [] \<and> width \<noteq> length columns then Inl ValueError
      else Inr (map (\<lambda>row. row @ replicate (width - length row) None) rows))"

text \<open>\<^verbatim>\<open>df['value']\<close>: \<^verbatim>\<open>KeyError\<close> without such a column, the column when there is one,
  and a frame of all of them when the name is repeated.\<close>

datatype selection = Series "cell list" | SubFrame "cell list list"

fun positions :: "'a \<Rightarrow> 'a list \<Rightarrow> nat list" where
  "positions x [] = []"
| "positions x (y # ys) = (if y = x then [0] else []) @ map Suc (positions x ys)"

definition getitem :: "cell list \<Rightarrow> cell list list \<Rightarrow> cell \<Rightarrow> exn + selection" where
  "getitem columns rows name =
     (case positions name columns of
        [] \<Rightarrow> Inl KeyError
      | [i] \<Rightarrow> Inr (Series (map (\<lambda>row. row ! i) rows))
      | i # j # ks \<Rightarrow> Inr (SubFrame (map (\<lambda>row. map (\<lambda>k. row ! k) (i # j # ks)) rows)))"

text \<open>
  \<^verbatim>\<open>pd.to_numeric(sel, errors='coerce').fillna(0)\<close>: a \<^verbatim>\<open>TypeError\<close> on a frame; on a
  column every cell is read by pandas' reader \<open>tn\<close> (a parameter: the number that the
  string denotes, NaN where the reader fails) and rounded, \<^verbatim>\<open>None\<close> becomes NaN, and
  \<^verbatim>\<open>fillna\<close> replaces NaN by zero.
\<close>

definition fillna :: "pyfloat \<Rightarrow> pyfloat" where
  "fillna x = (if x = NaN then Fin 0 else x)"

definition coerce_cell :: "(pystr \<Rightarrow> pyfloat) \<Rightarrow> cell \<Rightarrow> pyfloat" where
  "coerce_cell tn c = (case c of None \<Rightarrow> NaN | Some s \<Rightarrow> as_double (tn s))"

definition to_numeric_fillna :: "(pystr \<Rightarrow> pyfloat) \<Rightarrow> selection \<Rightarrow> exn + pyfloat list" where
  "to_numeric_fillna tn sel =
     (case sel of
        SubFrame _ \<Rightarrow> Inl TypeError
      | Series cells \<Rightarrow> Inr (map (\<lambda>c. fillna (coerce_cell tn c)) cells))"

text \<open>\<^verbatim>\<open>df['value'].sum()\<close> adds the column in the order numpy chooses, which is not the
  order of the rows for a long column: the summation \<open>add_up\<close> is a parameter.\<close>

definition pandas_answer ::
  "(pystr \<Rightarrow> pyfloat) \<Rightarrow> (pyfloat list \<Rightarrow> pyfloat) \<Rightarrow> table \<Rightarrow> exn + pyfloat" where
  "pandas_answer tn add_up table =
     (case table of
        [] \<Rightarrow> Inl IndexError
      | header # data \<Rightarrow>
          (case data_frame data header of
             Inl e \<Rightarrow> Inl e
           | Inr rows \<Rightarrow>
               (case getitem header rows value_name of
                  Inl e \<Rightarrow> Inl e
                | Inr sel \<Rightarrow>
                    (case to_numeric_fillna tn sel of
                       Inl e \<Rightarrow> Inl e
                     | Inr vals \<Rightarrow> Inr (add_up vals)))))"

section \<open>The run: state, effects and control\<close>

text \<open>
  \<^verbatim>\<open>solve_quiz\<close> calls a browser, the network and three parsing libraries. All of them are
  outside the repository; what they return, or which exception they raise, is read from an
  environment, one field per call site. \<open>Inl\<close> is a raised exception.
\<close>

record QuizRequest =
  email :: pystr
  secret :: pystr
  url :: pystr

record submission_payload =
  payload_email :: pystr
  payload_secret :: pystr
  payload_url :: pystr
  payload_answer :: pyfloat

text \<open>What \<^verbatim>\<open>BeautifulSoup(decoded_content, 'lxml')\<close> exposes to the pipeline: the text of
  the document and the attributes of its first anchor, if it has one.\<close>

record soup =
  get_text :: pystr
  find_a :: "(pystr \<times> pystr) list option"

record http_response =
  status_ok :: bool
  content :: "nat list"

record post_response =
  post_status_ok :: bool
  json_body :: "exn + json"

text \<open>A page of the PDF, as each library sees it: \<^verbatim>\<open>extract_table()\<close> of pdfplumber (the
  table or \<^verbatim>\<open>None\<close>) and \<^verbatim>\<open>find_tables()\<close> of PyMuPDF (the tables found, each as
  \<^verbatim>\<open>extract()\<close> returns it).\<close>

record pdf_page =
  extract_table :: "exn + table option"
  find_tables :: "exn + table list"

record env =
  unicode :: ucd
  start_playwright :: "exn + unit"
  stop_playwright :: "exn + unit"
  launch :: "exn + unit"
  new_page :: "exn + unit"
  goto :: "pystr \<Rightarrow> exn + unit"
  evaluate :: "exn + pystr"
  page_content :: "exn + pystr"
  b64decode :: "pystr \<Rightarrow> exn + nat list"
  utf8_decode :: "nat list \<Rightarrow> exn + pystr"
  beautiful_soup :: "pystr \<Rightarrow> exn + soup"
  requests_get :: "pystr \<Rightarrow> exn + http_response"
  write_file :: "nat list \<Rightarrow> exn + unit"
  pdf_open :: "nat list \<Rightarrow> exn + pdf_page list"
  float_reader :: "pystr \<Rightarrow> pyfloat option"
  numeric_reader :: "pystr \<Rightarrow> pyfloat"
  series_sum :: "pyfloat list \<Rightarrow> pyfloat"
  requests_post :: "pystr \<Rightarrow> submission_payload \<Rightarrow> exn + post_response"
  browser_close :: "exn + unit"

text \<open>The log records and the outward effects of a run, in the order they happen.\<close>

datatype level = Info | Warning | Error | Critical

datatype message =
    Received pystr | NavigatedTo pystr | NavigationFailed exn
  | ExtractedPayload | FallbackToPage | QuestionText pystr
  | FoundDownloadLink pystr | FoundSubmissionUrl pystr | NoSubmissionUrl
  | ExtractionError exn
  | AttemptingPdfSum | DownloadedPdf | TooFewPages | CalculatedSum pyfloat | NoTable
  | NoValueColumn | DownloadFailed exn | PdfFailed exn | TableError exn | NotRecognized
  | Submitting submission_payload | SubmissionResponse json | AnswerCorrect
  | NewQuizUrl json | SeriesFinished | AnswerIncorrect json
  | SubmitFailed exn | JsonFailed | Unexpected exn | BrowserClosed
  | InvalidSecret pystr | AddedToBackground pystr

datatype event =
    Log level message
  | Launch
  | Goto pystr
  | Get pystr
  | Post pystr submission_payload
  | Close

text \<open>
  The variables of a run that outlive a stage: \<^verbatim>\<open>browser\<close> (set once the browser is
  launched), the trace, and the local \<^verbatim>\<open>background_tasks\<close> object of the Submitter with
  the tasks added to it (\<open>None\<close> while the variable is unbound).
\<close>

record run_state =
  browser :: bool
  trace :: "event list"
  background_tasks :: "QuizRequest list option"

definition initial_state :: run_state where
  "initial_state = \<lparr>browser = False, trace = [], background_tasks = None\<rparr>"

text \<open>A statement either goes on with a value, executes \<^verbatim>\<open>return\<close>, or raises.\<close>

datatype 'a ctl = Next 'a | Return | Raise exn

type_synonym 'a run = "run_state \<Rightarrow> 'a ctl \<times> run_state"

definition result :: "'a \<Rightarrow> 'a run" where
  "result x s = (Next x, s)"

definition seq :: "'a run \<Rightarrow> ('a \<Rightarrow> 'b run) \<Rightarrow> 'b run" where
  "seq m f s =
     (case m s of
        (Next x, s') \<Rightarrow> f x s'
      | (Return, s') \<Rightarrow> (Return, s')
      | (Raise e, s') \<Rightarrow> (Raise e, s'))"

definition emit :: "event \<Rightarrow> unit run" where
  "emit ev s = (Next (), s\<lparr>trace := trace s @ [ev]\<rparr>)"

definition logging :: "level \<Rightarrow> message \<Rightarrow> unit run" where
  "logging lvl msg = emit (Log lvl msg)"

definition call :: "exn + 'a \<Rightarrow> 'a run" where
  "call r s = (case r of Inl e \<Rightarrow> (Raise e, s) | Inr x \<Rightarrow> (Next x, s))"

definition return_None :: "'a run" where
  "return_None s = (Return, s)"

text \<open>\<^verbatim>\<open>try: m except C1: h1 except C2: h2\<close>: the first clause whose class test accepts
  the exception handles it; without one it propagates. An exception raised inside a
  handler is not handled by its siblings.\<close>

definition try_except :: "'a run \<Rightarrow> ((exn \<Rightarrow> bool) \<times> (exn \<Rightarrow> 'a run)) list \<Rightarrow> 'a run" where
  "try_except m handlers s =
     (case m s of
        (Raise e, s') \<Rightarrow>
          (case find (\<lambda>h. fst h e) handlers of
             Some h \<Rightarrow> snd h e s'
           | None \<Rightarrow> (Raise e, s'))
      | (Next x, s') \<Rightarrow> (Next x, s')
      | (Return, s') \<Rightarrow> (Return, s'))"

text \<open>\<^verbatim>\<open>try: m finally: f\<close>: \<open>f\<close> runs on every way out of \<open>m\<close>; when \<open>f\<close> itself
  raises or returns, that replaces the outcome of \<open>m\<close>.\<close>

definition try_finally :: "'a run \<Rightarrow> unit run \<Rightarrow> 'a run" where
  "try_finally m f s =
     (case m s of
        (r, s') \<Rightarrow>
          (case f s' of
             (Next u, s'') \<Rightarrow> (r, s'')
           | (Return, s'') \<Rightarrow> (Return, s'')
           | (Raise e, s'') \<Rightarrow> (Raise e, s'')))"

text \<open>\<^verbatim>\<open>except Exception\<close>: every exception of the model is one.\<close>

definition any_exception :: "exn \<Rightarrow> bool" where
  "any_exception e = True"


section \<open>solve\_quiz, stage by stage\<close>

subsection \<open>Browser and page navigation\<close>

text \<open>\<^verbatim>\<open>browser = await p.chromium.launch()\<close> binds the variable only when the launch
  succeeds.\<close>

definition launch_browser :: "env \<Rightarrow> unit run" where
  "launch_browser w =
     seq (call (launch w)) (\<lambda>u s. (Next (), s\<lparr>browser := True, trace := trace s @ [Launch]\<rparr>))"

definition navigate :: "env \<Rightarrow> QuizRequest \<Rightarrow> unit run" where
  "navigate w quiz_request =
     try_except
       (seq (launch_browser w) (\<lambda>u.
        seq (call (new_page w)) (\<lambda>u.
        seq (emit (Goto (url quiz_request))) (\<lambda>u.
        seq (call (goto w (url quiz_request))) (\<lambda>u.
        logging Info (NavigatedTo (url quiz_request)))))))
       [(any_exception, \<lambda>e. seq (logging Error (NavigationFailed e)) (\<lambda>u. return_None))]"

subsection \<open>Content extraction\<close>

text \<open>\<^verbatim>\<open>xs[i]\<close> for a non-negative index.\<close>

definition subscript :: "'a list \<Rightarrow> nat \<Rightarrow> exn + 'a" where
  "subscript xs i = (if i < length xs then Inr (xs ! i) else Inl IndexError)"

text \<open>The backtick is code point 96.\<close>

definition extract_payload :: "env \<Rightarrow> pystr run" where
  "extract_payload w =
     try_except
       (seq (call (evaluate w)) (\<lambda>script_content.
        seq (call (subscript (split_on 96 script_content) 1)) (\<lambda>base64_content.
        seq (call (b64decode w base64_content)) (\<lambda>raw.
        seq (call (utf8_decode w raw)) (\<lambda>decoded_content.
        seq (logging Info ExtractedPayload) (\<lambda>u.
        result decoded_content))))))
       [(any_exception, \<lambda>e. seq (logging Warning FallbackToPage) (\<lambda>u. call (page_content w)))]"

subsection \<open>Quiz detail extraction\<close>

text \<open>\<^verbatim>\<open>soup.find('a')['href']\<close>: a \<^verbatim>\<open>KeyError\<close> when the tag has no such attribute.\<close>

definition tag_getitem :: "(pystr \<times> pystr) list \<Rightarrow> pystr \<Rightarrow> exn + pystr" where
  "tag_getitem attrs name = (case map_of attrs name of None \<Rightarrow> Inl KeyError | Some v \<Rightarrow> Inr v)"

definition find_download_link :: "soup \<Rightarrow> pystr option run" where
  "find_download_link sp =
     (case find_a sp of
        None \<Rightarrow> result None
      | Some attrs \<Rightarrow>
          seq (call (tag_getitem attrs (str ''href''))) (\<lambda>download_link.
          seq (logging Info (FoundDownloadLink download_link)) (\<lambda>u.
          result (Some download_link))))"

definition find_submission_url :: "env \<Rightarrow> pystr \<Rightarrow> pystr option run" where
  "find_submission_url w question_text =
     (case select_submission (findall_urls (unicode w) question_text) of
        None \<Rightarrow> result None
      | Some submission_url \<Rightarrow>
          seq (logging Info (FoundSubmissionUrl submission_url)) (\<lambda>u.
          result (Some submission_url)))"

text \<open>\<^verbatim>\<open>if not submission_url\<close> holds for \<^verbatim>\<open>None\<close> and for the empty string.\<close>

definition quiz_details :: "env \<Rightarrow> soup \<Rightarrow> (pystr option \<times> pystr) run" where
  "quiz_details w sp =
     try_except
       (seq (find_download_link sp) (\<lambda>download_link.
        seq (find_submission_url w (get_text sp)) (\<lambda>submission_url.
        (case submission_url of
           None \<Rightarrow> seq (logging Warning NoSubmissionUrl) (\<lambda>u. return_None)
         | Some su \<Rightarrow>
             if su = [] then seq (logging Warning NoSubmissionUrl) (\<lambda>u. return_None)
             else result (download_link, su)))))
       [(any_exception, \<lambda>e. seq (logging Error (ExtractionError e)) (\<lambda>u. return_None))]"

subsection \<open>Quiz solving\<close>

text \<open>The marker phrase, with U+201C and U+201D around the column name.\<close>

definition marker :: pystr where
  "marker = str ''sum of the '' @ [8220] @ str ''value'' @ [8221] @ str '' column''"

definition raise_for_status :: "bool \<Rightarrow> unit run" where
  "raise_for_status ok = (if ok then result () else call (Inl RequestException))"

datatype variant = MainPy | IndexPy

text \<open>
  main.py: the PDF goes through a file and pdfplumber, the table through pandas. The
  second \<^verbatim>\<open>except\<close> clause names \<^verbatim>\<open>pdfplumber.PDFSyntaxError\<close>, an attribute the module
  does not have: when an exception that is not a \<^verbatim>\<open>RequestException\<close> reaches the clause,
  evaluating its class tuple raises \<^verbatim>\<open>AttributeError\<close>, which leaves the statement; the
  third clause is never reached.
\<close>

definition solve_pdf_main :: "env \<Rightarrow> pystr \<Rightarrow> pyfloat option run" where
  "solve_pdf_main w download_link =
     try_except
       (seq (logging Info AttemptingPdfSum) (\<lambda>u.
        seq (emit (Get download_link)) (\<lambda>u.
        seq (call (requests_get w download_link)) (\<lambda>pdf_response.
        seq (raise_for_status (status_ok pdf_response)) (\<lambda>u.
        seq (call (write_file w (content pdf_response))) (\<lambda>u.
        seq (logging Info DownloadedPdf) (\<lambda>u.
        seq (call (pdf_open w (content pdf_response))) (\<lambda>pages.
        if length pages < 2 then seq (logging Error TooFewPages) (\<lambda>u. return_None)
        else
          seq (call (extract_table (pages ! 1))) (\<lambda>table.
          (case table of
             None \<Rightarrow> seq (logging Warning NoTable) (\<lambda>u. return_None)
           | Some t \<Rightarrow>
               if t = [] then seq (logging Warning NoTable) (\<lambda>u. return_None)
               else
                 seq (call (pandas_answer (numeric_reader w) (series_sum w) t)) (\<lambda>answer.
                 seq (logging Info (CalculatedSum answer)) (\<lambda>u.
                 result (Some answer)))))))))))))
       [(\<lambda>e. isinstance_exn e RequestException,
           \<lambda>e. seq (logging Error (DownloadFailed e)) (\<lambda>u. return_None)),
        (any_exception,
           \<lambda>e. call (Inl AttributeError)),
        (\<lambda>e. isinstance_exn e KeyError \<or> isinstance_exn e ValueError,
           \<lambda>e. seq (logging Error (TableError e)) (\<lambda>u. return_None))]"

text \<open>api/index.py: the PDF is opened from memory by PyMuPDF and the first table summed
  by the loop. The object that \<^verbatim>\<open>find_tables()\<close> returns defines neither \<^verbatim>\<open>__bool__\<close> nor
  \<^verbatim>\<open>__len__\<close>, so \<^verbatim>\<open>if tables:\<close> holds also when no table was found, and \<^verbatim>\<open>tables[0]\<close>
  then raises \<^verbatim>\<open>IndexError\<close>.\<close>

definition finder_is_true :: "table list \<Rightarrow> bool" where
  "finder_is_true tables = True"

definition sum_first_table :: "env \<Rightarrow> table \<Rightarrow> pyfloat option run" where
  "sum_first_table w table_data =
     seq (call (subscript table_data 0)) (\<lambda>header.
     seq (try_except
            (call (case index_of value_name header of
                     None \<Rightarrow> Inl ValueError
                   | Some i \<Rightarrow> Inr i))
            [(\<lambda>e. isinstance_exn e ValueError,
                \<lambda>e. seq (logging Error NoValueColumn) (\<lambda>u. return_None))]) (\<lambda>value_index.
     seq (call (sum_rows (float_reader w) value_index (tl table_data) (Fin 0))) (\<lambda>total_sum.
     seq (logging Info (CalculatedSum total_sum)) (\<lambda>u.
     result (Some total_sum)))))"

definition solve_pdf_index :: "env \<Rightarrow> pystr \<Rightarrow> pyfloat option run" where
  "solve_pdf_index w download_link =
     try_except
       (seq (logging Info AttemptingPdfSum) (\<lambda>u.
        seq (emit (Get download_link)) (\<lambda>u.
        seq (call (requests_get w download_link)) (\<lambda>pdf_response.
        seq (raise_for_status (status_ok pdf_response)) (\<lambda>u.
        seq (call (pdf_open w (content pdf_response))) (\<lambda>pdf_document.
        seq (logging Info DownloadedPdf) (\<lambda>u.
        if length pdf_document < 2 then seq (logging Error TooFewPages) (\<lambda>u. return_None)
        else
          seq (call (find_tables (pdf_document ! 1))) (\<lambda>tables.
          if finder_is_true tables then
            seq (call (subscript tables 0)) (\<lambda>table_data. sum_first_table w table_data)
          else seq (logging Warning NoTable) (\<lambda>u. return_None)))))))))
       [(\<lambda>e. isinstance_exn e RequestException,
           \<lambda>e. seq (logging Error (DownloadFailed e)) (\<lambda>u. return_None)),
        (any_exception,
           \<lambda>e. seq (logging Error (PdfFailed e)) (\<lambda>u. return_None))]"

text \<open>The dispatch: the marker phrase in the text and a non-empty download link.\<close>

definition solve :: "variant \<Rightarrow> env \<Rightarrow> pystr \<Rightarrow> pystr option \<Rightarrow> pyfloat option run" where
  "solve v w question_text download_link =
     (case download_link of
        None \<Rightarrow> seq (logging Warning NotRecognized) (\<lambda>u. return_None)
      | Some link \<Rightarrow>
          if contains marker question_text \<and> link \<noteq> [] then
            (case v of MainPy \<Rightarrow> solve_pdf_main w link | IndexPy \<Rightarrow> solve_pdf_index w link)
          else seq (logging Warning NotRecognized) (\<lambda>u. return_None))"


subsection \<open>Answer submission\<close>

text \<open>\<^verbatim>\<open>d.get(key)\<close> of a parsed JSON document: only an object has the method.\<close>

definition json_get :: "json \<Rightarrow> pystr \<Rightarrow> exn + json option" where
  "json_get j key = (case j of JObj kvs \<Rightarrow> Inr (map_of kvs key) | _ \<Rightarrow> Inl AttributeError)"

text \<open>\<^verbatim>\<open>QuizRequest(email=..., secret=..., url=v)\<close>: the pydantic model declares
  \<^verbatim>\<open>url: str\<close> and rejects any other JSON value.\<close>

definition new_QuizRequest :: "pystr \<Rightarrow> pystr \<Rightarrow> json \<Rightarrow> exn + QuizRequest" where
  "new_QuizRequest e sec v =
     (case v of
        JStr u \<Rightarrow> Inr \<lparr>email = e, secret = sec, url = u\<rparr>
      | _ \<Rightarrow> Inl ValidationError)"

text \<open>\<^verbatim>\<open>background_tasks = BackgroundTasks()\<close> followed by
  \<^verbatim>\<open>background_tasks.add_task(solve_quiz, new_quiz_request)\<close>: a fresh object, local to the
  run, with one task in its list. Nothing in \<^verbatim>\<open>solve_quiz\<close> calls the object or hands it
  to the framework.\<close>

definition add_task :: "QuizRequest list \<Rightarrow> QuizRequest \<Rightarrow> QuizRequest list" where
  "add_task tasks r = tasks @ [r]"

definition schedule_next :: "QuizRequest \<Rightarrow> unit run" where
  "schedule_next r s = (Next (), s\<lparr>background_tasks := Some (add_task [] r)\<rparr>)"

definition interpret_response :: "QuizRequest \<Rightarrow> json \<Rightarrow> unit run" where
  "interpret_response quiz_request response_json =
     seq (call (json_get response_json (str ''correct''))) (\<lambda>correct.
     if (case correct of None \<Rightarrow> False | Some c \<Rightarrow> truthy c) then
       seq (logging Info AnswerCorrect) (\<lambda>u.
       seq (call (json_get response_json (str ''url''))) (\<lambda>next_url.
       (case next_url of
          None \<Rightarrow> logging Info SeriesFinished
        | Some nu \<Rightarrow>
            if truthy nu then
              seq (logging Info (NewQuizUrl nu)) (\<lambda>u.
              seq (call (new_QuizRequest (email quiz_request) (secret quiz_request) nu))
                (\<lambda>new_quiz_request. schedule_next new_quiz_request))
            else logging Info SeriesFinished)))
     else
       seq (call (json_get response_json (str ''reason''))) (\<lambda>reason.
       logging Warning (AnswerIncorrect (case reason of None \<Rightarrow> JStr (str ''No reason provided.'') | Some r \<Rightarrow> r))))"

definition submit :: "env \<Rightarrow> QuizRequest \<Rightarrow> pystr \<Rightarrow> pyfloat option \<Rightarrow> unit run" where
  "submit w quiz_request submission_url answer =
     (case answer of
        None \<Rightarrow> result ()
      | Some a \<Rightarrow>
          (let submission_payload =
                 \<lparr>payload_email = email quiz_request, payload_secret = secret quiz_request,
                  payload_url = url quiz_request, payload_answer = a\<rparr>
           in try_except
                (seq (logging Info (Submitting submission_payload)) (\<lambda>u.
                 seq (emit (Post submission_url submission_payload)) (\<lambda>u.
                 seq (call (requests_post w submission_url submission_payload)) (\<lambda>submission_response.
                 seq (raise_for_status (post_status_ok submission_response)) (\<lambda>u.
                 seq (call (json_body submission_response)) (\<lambda>response_json.
                 seq (logging Info (SubmissionResponse response_json)) (\<lambda>u.
                 interpret_response quiz_request response_json)))))))
                [(\<lambda>e. isinstance_exn e RequestException,
                    \<lambda>e. logging Error (SubmitFailed e)),
                 (\<lambda>e. isinstance_exn e JSONDecodeError,
                    \<lambda>e. logging Error JsonFailed)]))"

subsection \<open>The whole run\<close>

text \<open>\<^verbatim>\<open>async with async_playwright() as p\<close>: entering may raise; leaving runs on every
  way out of the body.\<close>

definition with_playwright :: "env \<Rightarrow> 'a run \<Rightarrow> 'a run" where
  "with_playwright w body =
     seq (call (start_playwright w)) (\<lambda>u. try_finally body (call (stop_playwright w)))"

definition pipeline :: "variant \<Rightarrow> env \<Rightarrow> QuizRequest \<Rightarrow> unit run" where
  "pipeline v w quiz_request =
     seq (navigate w quiz_request) (\<lambda>u.
     seq (extract_payload w) (\<lambda>decoded_content.
     seq (call (beautiful_soup w decoded_content)) (\<lambda>sp.
     seq (logging Info (QuestionText (get_text sp))) (\<lambda>u.
     seq (quiz_details w sp) (\<lambda>(download_link, submission_url).
     seq (solve v w (get_text sp) download_link) (\<lambda>answer.
     submit w quiz_request submission_url answer))))))"

text \<open>The \<^verbatim>\<open>finally\<close> block: \<^verbatim>\<open>if browser: await browser.close()\<close> and a log record. The
  event \<open>Close\<close> is the call of \<^verbatim>\<open>close()\<close>, whatever comes of it. The block is outside the
  \<^verbatim>\<open>except\<close> clause: what \<^verbatim>\<open>close()\<close> raises leaves \<^verbatim>\<open>solve_quiz\<close>.\<close>

definition close_browser :: "env \<Rightarrow> unit run" where
  "close_browser w s =
     (if browser s then
        seq (emit Close) (\<lambda>u.
        seq (call (browser_close w)) (\<lambda>u.
        logging Info BrowserClosed)) s
      else result () s)"

definition solve_quiz :: "variant \<Rightarrow> env \<Rightarrow> QuizRequest \<Rightarrow> unit run" where
  "solve_quiz v w quiz_request =
     seq (logging Info (Received (url quiz_request))) (\<lambda>u.
     try_finally
       (try_except (with_playwright w (pipeline v w quiz_request))
          [(any_exception, \<lambda>e. logging Critical (Unexpected e))])
       (close_browser w))"

section \<open>The inbound endpoint\<close>

text \<open>
  \<^verbatim>\<open>SECRET = os.getenv("SECRET")\<close> is a string or \<^verbatim>\<open>None\<close>; the secret of a validated
  request is a string. \<^verbatim>\<open>receive_quiz\<close> raises \<^verbatim>\<open>HTTPException(403)\<close> or adds the run to
  the \<^verbatim>\<open>background_tasks\<close> object that the framework injected, and the framework runs the
  tasks of that object once the response is sent.
\<close>

datatype http_error = HTTPException nat string

definition receive_quiz ::
  "pystr option \<Rightarrow> QuizRequest \<Rightarrow> QuizRequest list
     \<Rightarrow> (http_error + string) \<times> QuizRequest list \<times> event list" where
  "receive_quiz SECRET quiz_request tasks =
     (if Some (secret quiz_request) \<noteq> SECRET then
        (Inl (HTTPException 403 ''Invalid secret''), tasks,
         [Log Warning (InvalidSecret (email quiz_request))])
      else
        (Inr ''Quiz received and is being processed.'', add_task tasks quiz_request,
         [Log Info (AddedToBackground (email quiz_request))]))"

text \<open>The runs that one inbound request starts: the tasks of the injected object after
  a successful response, each executed by \<^verbatim>\<open>solve_quiz\<close> from a fresh state.\<close>

definition runs_of_request :: "pystr option \<Rightarrow> QuizRequest \<Rightarrow> QuizRequest list" where
  "runs_of_request SECRET quiz_request =
     (case receive_quiz SECRET quiz_request [] of
        (Inl err, tasks, logs) \<Rightarrow> []
      | (Inr ack, tasks, logs) \<Rightarrow> tasks)"

definition serve ::
  "variant \<Rightarrow> env \<Rightarrow> pystr option \<Rightarrow> QuizRequest \<Rightarrow> (QuizRequest \<times> unit ctl \<times> run_state) list" where
  "serve v w SECRET quiz_request =
     map (\<lambda>r. (r, solve_quiz v w r initial_state)) (runs_of_request SECRET quiz_request)"


section \<open>Vocabulary of the properties\<close>

text \<open>
  A text made of single characters accepted by \<open>single\<close> and of escapes: a percent
  sign and two characters accepted by \<open>hex\<close>.
\<close>

fun url_chars :: "(nat \<Rightarrow> bool) \<Rightarrow> (nat \<Rightarrow> bool) \<Rightarrow> pystr \<Rightarrow> bool" where
  "url_chars single hex [] = True"
| "url_chars single hex (c # cs) =
     (if single c then url_chars single hex cs
      else (case cs of
              h1 # h2 # r \<Rightarrow> c = 37 \<and> hex h1 \<and> hex h2 \<and> url_chars single hex r
            | _ \<Rightarrow> False))"

text \<open>The single characters that the pattern's class \<^verbatim>\<open>[-\w.]\<close> accepts, and those that
  the words "alphanumerics, hyphen, dot" list.\<close>

definition class_char :: "ucd \<Rightarrow> nat \<Rightarrow> bool" where
  "class_char u c = (alnum_char u c \<or> c = 95 \<or> c = 45 \<or> c = 46)"

definition listed_char :: "ucd \<Rightarrow> nat \<Rightarrow> bool" where
  "listed_char u c = (alnum_char u c \<or> c = 45 \<or> c = 46)"

text \<open>The hexadecimal digits: \<^verbatim>\<open>0\<close> to \<^verbatim>\<open>9\<close>, \<^verbatim>\<open>a\<close> to \<^verbatim>\<open>f\<close> and \<^verbatim>\<open>A\<close> to \<^verbatim>\<open>F\<close>.\<close>

definition ascii_hex :: "nat \<Rightarrow> bool" where
  "ascii_hex c = ((48 \<le> c \<and> c \<le> 57) \<or> (97 \<le> c \<and> c \<le> 102) \<or> (65 \<le> c \<and> c \<le> 70))"

text \<open>Unicode tables for the examples: one for texts that are ASCII, in which no code
  point beyond ASCII is alphanumeric or a digit, and one that knows the Arabic-Indic
  digits U+0660 to U+0669, which are decimal digits and alphanumeric.\<close>

definition no_ucd :: ucd where
  "no_ucd = \<lparr>isalnum = (\<lambda>c. False), isdecimal = (\<lambda>c. False)\<rparr>"

definition arabic_ucd :: ucd where
  "arabic_ucd = \<lparr>isalnum = (\<lambda>c. 1632 \<le> c \<and> c \<le> 1641), isdecimal = (\<lambda>c. 1632 \<le> c \<and> c \<le> 1641)\<rparr>"

text \<open>
  The occurrences of the recognized URLs in a text, as pairs of a position and a URL,
  from left to right: every URL is the match of the pattern at its position, an
  occurrence ends before the next one starts, and the pattern matches at no position
  outside the occurrences.
\<close>

definition occurrences :: "ucd \<Rightarrow> pystr \<Rightarrow> (nat \<times> pystr) list \<Rightarrow> bool" where
  "occurrences u text occ =
     ((\<forall>(p, m)\<in>set occ. p + length m \<le> length text
           \<and> match_url u (drop p text) = Some (m, drop (p + length m) text))
      \<and> sorted_wrt (\<lambda>(p, m) (q, n). p + length m \<le> q) occ
      \<and> (\<forall>p<length text. (\<forall>(q, m)\<in>set occ. p < q \<or> q + length m \<le> p) \<longrightarrow>
            match_url u (drop p text) = None))"

text \<open>The two readers on the strings of the examples: each string denotes the number
  written (\<^verbatim>\<open>float("5.5")\<close> is 5.5, \<^verbatim>\<open>float("nan")\<close> is NaN, \<^verbatim>\<open>float("abc")\<close> raises);
  \<^verbatim>\<open>pd.to_numeric\<close> with \<^verbatim>\<open>errors='coerce'\<close> reads the same numbers and gives NaN
  elsewhere.\<close>

definition float_table :: "pystr \<Rightarrow> pyfloat option" where
  "float_table s =
     (if s = str ''10'' then Some (Fin 10)
      else if s = str ''5.5'' then Some (Fin (11 / 2))
      else if s = str ''1'' then Some (Fin 1)
      else if s = str ''2'' then Some (Fin 2)
      else if s = str ''3'' then Some (Fin 3)
      else if s = str ''0.1'' then Some (Fin (1 / 10))
      else if s = str ''0.2'' then Some (Fin (2 / 10))
      else if s = str ''nan'' then Some NaN
      else None)"

definition numeric_table :: "pystr \<Rightarrow> pyfloat" where
  "numeric_table s = (case float_table s of Some v \<Rightarrow> v | None \<Rightarrow> NaN)"

text \<open>The summation of a column of fewer than eight values, which numpy adds from left
  to right.\<close>

definition short_sum :: "pyfloat list \<Rightarrow> pyfloat" where
  "short_sum vals = foldl fadd (Fin 0) vals"

text \<open>The table of the scenario, a table whose header names the value column twice, and
  a table whose value column holds the string \<^verbatim>\<open>nan\<close>.\<close>

definition scenario_header :: "cell list" where
  "scenario_header = [Some (str ''id''), Some (str ''value'')]"

definition scenario_rows :: "cell list list" where
  "scenario_rows = [[Some (str ''1''), Some (str ''10'')],
                    [Some (str ''2''), Some (str ''abc'')],
                    [Some (str ''3''), Some (str ''5.5'')]]"

definition repeated_table :: table where
  "repeated_table = [[Some (str ''value''), Some (str ''value'')],
                     [Some (str ''1''), Some (str ''2'')]]"

definition nan_table :: table where
  "nan_table = [[Some (str ''value'')], [Some (str ''nan'')]]"

text \<open>
  A triple for runs: from a state satisfying \<open>P\<close>, a run that goes on with \<open>x\<close> leaves a
  state satisfying \<open>Q x\<close>, and a run that returns or raises leaves one satisfying \<open>E\<close>.
\<close>

definition triple ::
  "(run_state \<Rightarrow> bool) \<Rightarrow> 'a run \<Rightarrow> ('a \<Rightarrow> run_state \<Rightarrow> bool) \<Rightarrow> (run_state \<Rightarrow> bool) \<Rightarrow> bool" where
  "triple P m Q E =
     (\<forall>s. P s \<longrightarrow> (case m s of
                       (Next x, s') \<Rightarrow> Q x s'
                     | (Return, s') \<Rightarrow> E s'
                     | (Raise e, s') \<Rightarrow> E s'))"

text \<open>A property of the state that every outcome of a run keeps.\<close>

definition preserves :: "(run_state \<Rightarrow> bool) \<Rightarrow> 'a run \<Rightarrow> bool" where
  "preserves I m = triple I m (\<lambda>x. I) I"

text \<open>A property that survives appending an event of the class \<open>ok\<close> (a \<open>Launch\<close>
  only together with binding the \<^verbatim>\<open>browser\<close> variable), and binding
  \<^verbatim>\<open>background_tasks\<close>.\<close>

definition stable :: "(event \<Rightarrow> bool) \<Rightarrow> (run_state \<Rightarrow> bool) \<Rightarrow> bool" where
  "stable ok I =
     ((\<forall>s ev. I s \<and> ok ev \<and> ev \<noteq> Launch \<longrightarrow> I (s\<lparr>trace := trace s @ [ev]\<rparr>))
      \<and> (\<forall>s. I s \<and> ok Launch \<longrightarrow> I (s\<lparr>browser := True, trace := trace s @ [Launch]\<rparr>))
      \<and> (\<forall>s ts. I s \<longrightarrow> I (s\<lparr>background_tasks := ts\<rparr>)))"

fun is_Post :: "event \<Rightarrow> bool" where
  "is_Post (Post u p) = True"
| "is_Post e = False"

fun is_Get :: "event \<Rightarrow> bool" where
  "is_Get (Get u) = True"
| "is_Get e = False"

fun is_CalculatedSum :: "event \<Rightarrow> bool" where
  "is_CalculatedSum (Log lvl (CalculatedSum a)) = True"
| "is_CalculatedSum e = False"

text \<open>The events of the stages before the solver, of the solver, and of the Submitter.\<close>

definition early_event :: "event \<Rightarrow> bool" where
  "early_event e = (\<not> is_Post e \<and> \<not> is_Get e \<and> \<not> is_CalculatedSum e \<and> e \<noteq> Close)"

definition solver_event :: "event \<Rightarrow> bool" where
  "solver_event e = (\<not> is_Post e \<and> e \<noteq> Close)"

definition pipeline_event :: "event \<Rightarrow> bool" where
  "pipeline_event e = (e \<noteq> Close)"

text \<open>While the pipeline runs: the \<^verbatim>\<open>browser\<close> variable is bound exactly when a browser
  was launched, and nothing has closed it.\<close>

definition browser_held :: "run_state \<Rightarrow> bool" where
  "browser_held s = ((Launch \<in> set (trace s)) = browser s \<and> Close \<notin> set (trace s))"

text \<open>Before the Submitter: no submission yet; the submission URL has been found; the
  answer, if there is one, has been calculated.\<close>

definition no_post :: "run_state \<Rightarrow> bool" where
  "no_post s = (\<forall>e\<in>set (trace s). \<not> is_Post e)"

definition url_found :: "pystr \<Rightarrow> run_state \<Rightarrow> bool" where
  "url_found su s = (no_post s \<and> Log Info (FoundSubmissionUrl su) \<in> set (trace s))"

definition ready_to_submit :: "pystr \<Rightarrow> pyfloat option \<Rightarrow> run_state \<Rightarrow> bool" where
  "ready_to_submit su answer s =
     (url_found su s \<and> (\<forall>a. answer = Some a \<longrightarrow> Log Info (CalculatedSum a) \<in> set (trace s)))"

text \<open>A trace without a submission, or with exactly one, made to a URL found before it
  and carrying an answer calculated before it.\<close>

definition submitted_once :: "event list \<Rightarrow> bool" where
  "submitted_once tr =
     ((\<forall>e\<in>set tr. \<not> is_Post e)
      \<or> (\<exists>pre u p post. tr = pre @ Post u p # post
            \<and> (\<forall>e\<in>set pre. \<not> is_Post e) \<and> (\<forall>e\<in>set post. \<not> is_Post e)
            \<and> Log Info (FoundSubmissionUrl u) \<in> set pre
            \<and> Log Info (CalculatedSum (payload_answer p)) \<in> set pre))"

definition not_Post :: "event \<Rightarrow> bool" where
  "not_Post e = (\<not> is_Post e)"

text \<open>A run that has downloaded nothing, calculated nothing and submitted nothing.\<close>

definition quiet_event :: "event \<Rightarrow> bool" where
  "quiet_event e = (\<not> is_Post e \<and> \<not> is_Get e \<and> \<not> is_CalculatedSum e)"

definition idle :: "run_state \<Rightarrow> bool" where
  "idle s = (\<forall>e\<in>set (trace s). quiet_event e)"

text \<open>
  The second backtick-delimited segment of a text, said without splitting: the text
  between the first backtick and the next one (or the end); there is none in a text
  without a backtick.
\<close>

definition second_segment :: "pystr \<Rightarrow> pystr option" where
  "second_segment s =
     (if 96 \<in> set s
      then Some (takeWhile (\<lambda>c. c \<noteq> 96) (tl (dropWhile (\<lambda>c. c \<noteq> 96) s)))
      else None)"

text \<open>The decoded payload of the page, when the lookup of the script element succeeds,
  the script has a second segment and both decodings of it succeed.\<close>

definition payload_text :: "env \<Rightarrow> pystr option" where
  "payload_text w =
     (case evaluate w of
        Inl e \<Rightarrow> None
      | Inr script_content \<Rightarrow>
          (case second_segment script_content of
             None \<Rightarrow> None
           | Some base64_content \<Rightarrow>
               (case b64decode w base64_content of
                  Inl e \<Rightarrow> None
                | Inr raw \<Rightarrow>
                    (case utf8_decode w raw of Inl e \<Rightarrow> None | Inr text \<Rightarrow> Some text))))"

text \<open>The document that a run hands to the parser, the payload or else the page content,
  and the soup that the parser makes of it.\<close>

definition run_document :: "env \<Rightarrow> exn + pystr" where
  "run_document w = (case payload_text w of Some text \<Rightarrow> Inr text | None \<Rightarrow> page_content w)"

definition run_soup :: "env \<Rightarrow> exn + soup" where
  "run_soup w = (case run_document w of Inl e \<Rightarrow> Inl e | Inr d \<Rightarrow> beautiful_soup w d)"

text \<open>The download link of a soup whose anchor lookup does not fail.\<close>

definition href_of :: "soup \<Rightarrow> pystr option" where
  "href_of sp = (case find_a sp of None \<Rightarrow> None | Some attrs \<Rightarrow> map_of attrs (str ''href''))"

section \<open>Worlds for the examples\<close>

text \<open>
  The document of the examples names a download link in its anchor and, in its text,
  the marker phrase and a submission URL. The script element of the page carries its
  UTF-8 encoding in base64 between backticks.
\<close>

definition demo_text :: pystr where
  "demo_text = marker @ str '' https://submit.org''"

definition demo_html :: pystr where
  "demo_html = str ''<a href=https://files.example.org>'' @ demo_text @ str ''</a>''"

definition demo_utf8 :: "nat list" where
  "demo_utf8 =
     str ''<a href=https://files.example.org>sum of the '' @ [226, 128, 156] @ str ''value''
       @ [226, 128, 157] @ str '' column https://submit.org</a>''"

definition demo_base64 :: pystr where
  "demo_base64 =
     str ''PGEgaHJlZj1odHRwczovL2ZpbGVzLmV4YW1wbGUub3JnPnN1bSBvZiB0aGUg''
     @ str ''4oCcdmFsdWXigJ0gY29sdW1uIGh0dHBzOi8vc3VibWl0Lm9yZzwvYT4=''"

definition demo_script :: pystr where
  "demo_script = str ''atob(`'' @ demo_base64 @ str ''`)''"

definition demo_soup :: soup where
  "demo_soup = \<lparr>get_text = demo_text, find_a = Some [(str ''href'', str ''https://files.example.org'')]\<rparr>"

text \<open>Two more documents: one that names its submission endpoint only in the path of
  a URL, which the pattern does not recognize, and one whose first anchor has no
  \<^verbatim>\<open>href\<close>.\<close>

definition plain_html :: pystr where
  "plain_html = str ''<p>to https://ex.org/submit</p>''"

definition plain_soup :: soup where
  "plain_soup = \<lparr>get_text = str ''to https://ex.org/submit'', find_a = None\<rparr>"

definition nohref_html :: pystr where
  "nohref_html = str ''<a id=top>'' @ demo_text @ str ''</a>''"

definition nohref_soup :: soup where
  "nohref_soup = \<lparr>get_text = demo_text, find_a = Some [(str ''id'', str ''top'')]\<rparr>"

text \<open>A soup whose text names three URLs, the second and the third with "submit".\<close>

definition choice_soup :: soup where
  "choice_soup =
     \<lparr>get_text = str ''https://a.org https://submit.b https://submit.c'',
      find_a = Some [(str ''href'', str ''https://files.example.org'')]\<rparr>"

text \<open>The decoders and the parser on the documents of the examples. The decoders reject
  every other input; the parser takes every other document for plain text.\<close>

definition demo_b64decode :: "pystr \<Rightarrow> exn + nat list" where
  "demo_b64decode s = (if s = demo_base64 then Inr demo_utf8 else Inl ValueError)"

definition demo_utf8_decode :: "nat list \<Rightarrow> exn + pystr" where
  "demo_utf8_decode b = (if b = demo_utf8 then Inr demo_html else Inl ValueError)"

definition demo_parser :: "pystr \<Rightarrow> exn + soup" where
  "demo_parser d =
     (if d = demo_html then Inr demo_soup
      else if d = plain_html then Inr plain_soup
      else if d = nohref_html then Inr nohref_soup
      else Inr \<lparr>get_text = d, find_a = None\<rparr>)"

text \<open>
  A world in which every collaborator succeeds: the page carries the payload, the PDF
  has the scenario's table on its second page, and the submission endpoint answers
  \<^verbatim>\<open>{"correct": true, "url": "https://x/next"}\<close>.
\<close>

definition demo_request :: QuizRequest where
  "demo_request = \<lparr>email = str ''a@b.org'', secret = str ''s3cret'', url = str ''https://quiz.example.org''\<rparr>"

definition blank_page :: pdf_page where
  "blank_page = \<lparr>extract_table = Inr None, find_tables = Inr []\<rparr>"

definition table_page :: "table \<Rightarrow> pdf_page" where
  "table_page t = \<lparr>extract_table = Inr (Some t), find_tables = Inr [t]\<rparr>"

definition demo_page :: pdf_page where
  "demo_page = table_page (scenario_header # scenario_rows)"

definition demo_response :: json where
  "demo_response = JObj [(str ''correct'', JBool True), (str ''url'', JStr (str ''https://x/next''))]"

definition demo_world :: env where
  "demo_world =
     \<lparr>unicode = no_ucd,
      start_playwright = Inr (), stop_playwright = Inr (),
      launch = Inr (), new_page = Inr (), goto = (\<lambda>u. Inr ()),
      evaluate = Inr demo_script,
      page_content = Inr (str ''<html></html>''),
      b64decode = demo_b64decode,
      utf8_decode = demo_utf8_decode,
      beautiful_soup = demo_parser,
      requests_get = (\<lambda>u. Inr \<lparr>status_ok = True, content = [37, 80, 68, 70]\<rparr>),
      write_file = (\<lambda>b. Inr ()),
      pdf_open = (\<lambda>b. Inr [blank_page, demo_page]),
      float_reader = float_table,
      numeric_reader = numeric_table,
      series_sum = short_sum,
      requests_post = (\<lambda>u p. Inr \<lparr>post_status_ok = True, json_body = Inr demo_response\<rparr>),
      browser_close = Inr ()\<rparr>"

definition demo_payload :: submission_payload where
  "demo_payload =
     \<lparr>payload_email = email demo_request, payload_secret = secret demo_request,
      payload_url = url demo_request, payload_answer = Fin (31 / 2)\<rparr>"

definition demo_next_request :: QuizRequest where
  "demo_next_request =
     \<lparr>email = email demo_request, secret = secret demo_request, url = str ''https://x/next''\<rparr>"

definition demo_trace :: "event list" where
  "demo_trace =
     [Log Info (Received (url demo_request)), Launch, Goto (url demo_request),
      Log Info (NavigatedTo (url demo_request)), Log Info ExtractedPayload,
      Log Info (QuestionText demo_text),
      Log Info (FoundDownloadLink (str ''https://files.example.org'')),
      Log Info (FoundSubmissionUrl (str ''https://submit.org'')),
      Log Info AttemptingPdfSum, Get (str ''https://files.example.org''),
      Log Info DownloadedPdf, Log Info (CalculatedSum (Fin (31 / 2))),
      Log Info (Submitting demo_payload), Post (str ''https://submit.org'') demo_payload,
      Log Info (SubmissionResponse demo_response), Log Info AnswerCorrect,
      Log Info (NewQuizUrl (JStr (str ''https://x/next''))),
      Close, Log Info BrowserClosed]"

text \<open>Worlds that differ from it in one respect: the page has no script element and its
  content is one of the two other documents; the page has neither a script element nor
  a readable content; closing the browser fails; the table of the PDF names the value
  column twice, or holds \<^verbatim>\<open>nan\<close>.\<close>

definition nosubmit_world :: env where
  "nosubmit_world = demo_world\<lparr>evaluate := Inl PlaywrightError, page_content := Inr plain_html\<rparr>"

definition nohref_world :: env where
  "nohref_world = demo_world\<lparr>evaluate := Inl PlaywrightError, page_content := Inr nohref_html\<rparr>"

definition lost_page_world :: env where
  "lost_page_world = demo_world\<lparr>evaluate := Inl PlaywrightError, page_content := Inl PlaywrightError\<rparr>"

definition stuck_browser_world :: env where
  "stuck_browser_world = demo_world\<lparr>browser_close := Inl PlaywrightError\<rparr>"

definition repeated_world :: env where
  "repeated_world = demo_world\<lparr>pdf_open := (\<lambda>b. Inr [blank_page, table_page repeated_table])\<rparr>"

definition nan_world :: env where
  "nan_world = demo_world\<lparr>pdf_open := (\<lambda>b. Inr [blank_page, table_page nan_table])\<rparr>"

section \<open>Properties of the URL recognition\<close>

lemma url_body_sound:
  "url_body u s = (m, r) \<Longrightarrow>
     s = m @ r \<and> url_chars (class_char u) (hex_char u) m"
proof (induction u s arbitrary: m r rule: url_body.induct)
  case (1 u)
  then show ?case by simp
next
  case (2 u c cs)
  let ?single = "class_char u"
  show ?case
  proof (cases "c = 45 \<or> word_char u c \<or> c = 46")
    case True
    obtain m' r' where b: "url_body u cs = (m', r')" by (cases "url_body u cs")
    from "2.IH"(1) [OF True b] have ih: "cs = m' @ r'" "url_chars ?single (hex_char u) m'"
      by simp_all
    from True b "2.prems" have m: "m = c # m'" "r = r'" by simp_all
    from True have "?single c" by (auto simp: word_char_def class_char_def)
    with ih m show ?thesis by simp
  next
    case False
    then have ns: "\<not> ?single c" by (auto simp: word_char_def class_char_def)
    show ?thesis
    proof (cases "c = 37 \<and> (\<exists>h1 h2 cs'. cs = h1 # h2 # cs' \<and> hex_char u h1 \<and> hex_char u h2)")
      case True
      then obtain h1 h2 cs' where c: "c = 37" and cs: "cs = h1 # h2 # cs'"
        and hx: "hex_char u h1 \<and> hex_char u h2" by blast
      obtain m' r' where b: "url_body u cs' = (m', r')" by (cases "url_body u cs'")
      from "2.IH"(2) [OF False c cs refl hx b]
      have ih: "cs' = m' @ r'" "url_chars ?single (hex_char u) m'" by simp_all
      from False c cs hx b "2.prems" have m: "m = c # h1 # h2 # m'" "r = r'" by simp_all
      with ih ns c cs hx show ?thesis by simp
    next
      case stop: False
      with False "2.prems" have "m = []" "r = c # cs"
        by (auto split: if_splits list.splits)
      then show ?thesis by simp
    qed
  qed
qed

lemma startswith_append: "startswith s p \<Longrightarrow> s = p @ drop (length p) s"
  by (induction s p rule: startswith.induct) auto

lemma match_url_sound:
  assumes "match_url u s = Some (m, r)"
  shows "s = m @ r \<and> (\<exists>scheme body. m = scheme @ body
           \<and> (scheme = str ''http://'' \<or> scheme = str ''https://'') \<and> body \<noteq> []
           \<and> url_chars (class_char u) (hex_char u) body)"
proof -
  from assms obtain p b where p: "startswith s p" "p = str ''http://'' \<or> p = str ''https://''"
    and b: "url_body u (drop (length p) s) = (b, r)" "b \<noteq> []" and m: "m = p @ b"
    by (auto simp: match_url_def Let_def split: if_splits prod.splits)
  from url_body_sound [OF b(1)] startswith_append [OF p(1)]
  have "s = p @ b @ r" and "url_chars (class_char u) (hex_char u) b"
    by auto
  with p b m show ?thesis by auto
qed

lemma findall_urls_matches:
  "found \<in> set (findall_urls u s) \<Longrightarrow>
     \<exists>pre r. s = pre @ found @ r \<and> match_url u (found @ r) = Some (found, r)"
proof (induction u s rule: findall_urls.induct)
  case (1 u)
  then show ?case by simp
next
  case (2 u c cs)
  show ?case
  proof (cases "match_url u (c # cs)")
    case None
    with "2.prems" have "found \<in> set (findall_urls u cs)" by simp
    from "2.IH"(1) [OF None this]
    obtain pre r where "cs = pre @ found @ r" "match_url u (found @ r) = Some (found, r)"
      by blast
    then have "c # cs = (c # pre) @ found @ r" by simp
    with \<open>match_url u (found @ r) = Some (found, r)\<close> show ?thesis by blast
  next
    case (Some mr)
    obtain m r where mr: "mr = (m, r)" by (cases mr)
    from match_url_sound Some mr have s: "c # cs = m @ r" by blast
    from "2.prems" Some mr have "found = m \<or> found \<in> set (findall_urls u r)" by simp
    then show ?thesis
    proof
      assume "found = m"
      with s Some mr have "c # cs = [] @ found @ r" "match_url u (found @ r) = Some (found, r)"
        by auto
      then show ?thesis by blast
    next
      assume "found \<in> set (findall_urls u r)"
      from "2.IH"(2) [OF Some mr [symmetric] this]
      obtain pre r' where "r = pre @ found @ r'" "match_url u (found @ r') = Some (found, r')"
        by blast
      with s have "c # cs = (m @ pre) @ found @ r'" by simp
      with \<open>match_url u (found @ r') = Some (found, r')\<close> show ?thesis by blast
    qed
  qed
qed

text \<open>The recognized URLs occur in the text from left to right, none overlapping the
  next, and the pattern matches nowhere between them.\<close>

lemma findall_urls_occurrences:
  "\<exists>occ. map snd occ = findall_urls u s \<and> occurrences u s occ"
proof (induction u s rule: findall_urls.induct)
  case (1 u)
  have "map snd [] = findall_urls u [] \<and> occurrences u [] []"
    by (simp add: occurrences_def)
  then show ?case by blast
next
  case (2 u c cs)
  show ?case
  proof (cases "match_url u (c # cs)")
    case None
    from "2.IH"(1) [OF None] obtain occ
      where occ: "map snd occ = findall_urls u cs" "occurrences u cs occ" by blast
    let ?occ = "map (\<lambda>x. (Suc (fst x), snd x)) occ"
    from occ(1) None have a: "map snd ?occ = findall_urls u (c # cs)"
      by (simp add: comp_def)
    from occ(2) have b: "\<forall>(p, m)\<in>set ?occ. p + length m \<le> length (c # cs)
           \<and> match_url u (drop p (c # cs)) = Some (m, drop (p + length m) (c # cs))"
      by (auto simp: occurrences_def)
    from occ(2) have c: "sorted_wrt (\<lambda>(p, m) (q, n). p + length m \<le> q) ?occ"
      by (simp add: occurrences_def sorted_wrt_map case_prod_unfold)
    have d: "match_url u (drop p (c # cs)) = None"
      if p: "p < length (c # cs)" and out: "\<forall>(q, m)\<in>set ?occ. p < q \<or> q + length m \<le> p" for p
    proof (cases p)
      case 0
      with None show ?thesis by simp
    next
      case (Suc p')
      from out Suc have "\<forall>(q, m)\<in>set occ. p' < q \<or> q + length m \<le> p'"
        by (auto simp: case_prod_unfold)
      moreover from p Suc have "p' < length cs" by simp
      ultimately have "match_url u (drop p' cs) = None"
        using occ(2) by (simp add: occurrences_def)
      with Suc show ?thesis by simp
    qed
    from b c d have "occurrences u (c # cs) ?occ"
      unfolding occurrences_def by blast
    with a show ?thesis by blast
  next
    case (Some mr)
    obtain m r where mr: "mr = (m, r)" by (cases mr)
    from match_url_sound Some mr have s: "c # cs = m @ r" by blast
    from "2.IH"(2) [OF Some mr [symmetric]] obtain occ
      where occ: "map snd occ = findall_urls u r" "occurrences u r occ" by blast
    let ?occ = "(0, m) # map (\<lambda>x. (fst x + length m, snd x)) occ"
    from occ(1) Some mr have a: "map snd ?occ = findall_urls u (c # cs)"
      by (simp add: comp_def)
    have dr: "drop (p + length m) (c # cs) = drop p r" for p
      by (simp add: s add.commute)
    from Some mr s have first: "match_url u (drop 0 (c # cs)) = Some (m, drop (0 + length m) (c # cs))"
      by (simp del: drop_Cons' add: dr [of 0, simplified])
    have b: "\<forall>(p, n)\<in>set ?occ. p + length n \<le> length (c # cs)
           \<and> match_url u (drop p (c # cs)) = Some (n, drop (p + length n) (c # cs))"
    proof -
      have "p + length m + length n \<le> length (c # cs)
           \<and> match_url u (drop (p + length m) (c # cs))
               = Some (n, drop (p + length m + length n) (c # cs))"
        if "(p, n) \<in> set occ" for p n
      proof -
        from occ(2) that have "p + length n \<le> length r"
          "match_url u (drop p r) = Some (n, drop (p + length n) r)"
          by (auto simp: occurrences_def)
        moreover have "drop (p + length m + length n) (c # cs) = drop (p + length n) r"
        proof -
          have eq: "p + length m + length n = p + length n + length m" by simp
          show ?thesis unfolding eq by (rule dr)
        qed
        ultimately show ?thesis using dr [of p] s by simp
      qed
      with first s show ?thesis by auto
    qed
    from occ(2) have c: "sorted_wrt (\<lambda>(p, m) (q, n). p + length m \<le> q) ?occ"
      by (auto simp: occurrences_def sorted_wrt_map case_prod_unfold)
    have d: "match_url u (drop p (c # cs)) = None"
      if p: "p < length (c # cs)" and out: "\<forall>(q, n)\<in>set ?occ. p < q \<or> q + length n \<le> p" for p
    proof -
      from out have le: "length m \<le> p" by simp
      define p' where "p' = p - length m"
      with le have pp: "p = p' + length m" by simp
      from out pp have "\<forall>(q, n)\<in>set occ. p' < q \<or> q + length n \<le> p'"
        by (auto simp: case_prod_unfold)
      moreover from p pp s have "p' < length r" by simp
      ultimately have "match_url u (drop p' r) = None"
        using occ(2) by (simp add: occurrences_def)
      with dr [of p'] pp show ?thesis by simp
    qed
    from b c d have "occurrences u (c # cs) ?occ"
      unfolding occurrences_def by blast
    with a show ?thesis by blast
  qed
qed

text \<open>The selection loop picks, of the occurrences that contain "submit", the leftmost.\<close>

lemma select_submission_leftmost:
  assumes "select_submission (map snd occ) = Some su"
    and "sorted_wrt (\<lambda>(p, m) (q, n). p + length m \<le> q) occ"
  shows "\<exists>p. (p, su) \<in> set occ \<and> contains (str ''submit'') su
           \<and> (\<forall>(q, m)\<in>set occ. q < p \<longrightarrow> \<not> contains (str ''submit'') m)"
  using assms
proof (induction occ)
  case Nil
  then show ?case by simp
next
  case (Cons x occ)
  obtain p0 m0 where x: "x = (p0, m0)" by (cases x)
  show ?case
  proof (cases "contains (str ''submit'') m0")
    case True
    with Cons.prems(1) x have su: "su = m0" by simp
    from Cons.prems(2) x have "\<forall>(q, m)\<in>set occ. p0 + length m0 \<le> q" by auto
    then have "\<forall>(q, m)\<in>set (x # occ). q < p0 \<longrightarrow> \<not> contains (str ''submit'') m"
      using x by auto
    with su x True show ?thesis by auto
  next
    case False
    with Cons.prems x have "select_submission (map snd occ) = Some su"
      "sorted_wrt (\<lambda>(p, m) (q, n). p + length m \<le> q) occ" by simp_all
    from Cons.IH [OF this] obtain p where p: "(p, su) \<in> set occ" "contains (str ''submit'') su"
      "\<forall>(q, m)\<in>set occ. q < p \<longrightarrow> \<not> contains (str ''submit'') m" by blast
    from p(3) False x have "\<forall>(q, m)\<in>set (x # occ). q < p \<longrightarrow> \<not> contains (str ''submit'') m"
      by auto
    with p(1,2) show ?thesis by auto
  qed
qed

text \<open>
  C6 (as amended). Every URL that \<^verbatim>\<open>re.findall\<close> recognizes in the question text is a
  substring of it, and consists of \<^verbatim>\<open>http://\<close> or \<^verbatim>\<open>https://\<close> followed by one or more
  characters, each an alphanumeric, an underscore, a hyphen or a dot, or part of an
  escape: a percent sign followed by two characters, each a decimal digit of any script
  or one of the letters a to f and A to F.
\<close>

theorem recognized_url_shape:
  assumes "found \<in> set (findall_urls u question_text)"
  shows "(\<exists>pre post. question_text = pre @ found @ post) \<and>
         (\<exists>scheme body. found = scheme @ body
            \<and> (scheme = str ''http://'' \<or> scheme = str ''https://'') \<and> body \<noteq> []
            \<and> url_chars (class_char u) (hex_char u) body)"
proof -
  from findall_urls_matches [OF assms] obtain pre r
    where "question_text = pre @ found @ r" "match_url u (found @ r) = Some (found, r)" by blast
  with match_url_sound show ?thesis by blast
qed

text \<open>
  C6 as stated fails: the underscore of \<^verbatim>\<open>http://a_b\<close> is part of the recognized URL,
  and it is neither alphanumeric, nor a hyphen, nor a dot, nor part of an escape. So are
  the percent sign and the two Arabic-Indic digits of a URL that ends in them, which are
  no percent-encoded byte: the characters after the percent sign are not hexadecimal
  digits.
\<close>

theorem underscore_url_counterexample:
  "findall_urls no_ucd (str ''http://a_b'') = [str ''http://a_b'']
   \<and> \<not> url_chars (listed_char no_ucd) (hex_char no_ucd) (str ''a_b'')
   \<and> findall_urls arabic_ucd (str ''http://a%'' @ [1635, 1635]) = [str ''http://a%'' @ [1635, 1635]]
   \<and> \<not> url_chars (listed_char arabic_ucd) ascii_hex (str ''a%'' @ [1635, 1635])"
  by code_simp

theorem recognized_url_shape_witness:
  "str ''https://submit.ex-1.org''
     \<in> set (findall_urls no_ucd (str ''go to https://submit.ex-1.org/q%41''))
   \<and> (\<exists>scheme body. str ''https://submit.ex-1.org'' = scheme @ body
          \<and> (scheme = str ''http://'' \<or> scheme = str ''https://'') \<and> body \<noteq> []
          \<and> url_chars (class_char no_ucd) (hex_char no_ucd) body)"
proof -
  have h: "str ''https://submit.ex-1.org''
     \<in> set (findall_urls no_ucd (str ''go to https://submit.ex-1.org/q%41''))"
    by code_simp
  from recognized_url_shape [OF h] h show ?thesis by blast
qed

section \<open>Properties of the column sum\<close>

subsection \<open>Evaluating the rounding\<close>

lemma bit_length_0: "bit_length 0 = 0"
  by (simp add: bit_length.simps)

lemma bit_length_1: "bit_length 1 = 1"
  by (simp add: bit_length.simps)

lemma bit_length_numeral: "bit_length (numeral k) = 1 + bit_length (numeral k div 2)"
  by (subst bit_length.simps) simp

lemma floor_rat_numeral: "\<lfloor>(numeral a :: rat) / numeral b\<rfloor> = numeral a div numeral b"
  by (metis floor_divide_of_int_eq of_int_numeral)

lemma ceiling_rat_numeral: "\<lceil>(numeral a :: rat) / numeral b\<rceil> = - (- numeral a div numeral b)"
proof -
  have "\<lceil>(numeral a :: rat) / numeral b\<rceil> = - \<lfloor>of_int (- numeral a) / (of_int (numeral b) :: rat)\<rfloor>"
    by (simp add: ceiling_def)
  also have "\<dots> = - (- numeral a div numeral b)"
    by (simp only: floor_divide_of_int_eq)
  finally show ?thesis .
qed

lemmas double_eval =
  double_of_rat_def ilog2_def round_half_even_def scale2_def Let_def
  bit_length_0 bit_length_1 bit_length_numeral floor_rat_numeral ceiling_rat_numeral

text \<open>The numbers of the examples are binary64 values.\<close>

lemma double_small:
  "double_of_rat 0 = Fin 0" "double_of_rat 1 = Fin 1" "double_of_rat 2 = Fin 2" "double_of_rat 3 = Fin 3"
  "double_of_rat 10 = Fin 10" "double_of_rat (11 / 2) = Fin (11 / 2)"
  "double_of_rat (31 / 2) = Fin (31 / 2)"
  by (simp_all add: double_eval)

text \<open>Sums are rounded: \<^verbatim>\<open>0.1 + 0.2\<close> is \<^verbatim>\<open>0.30000000000000004\<close>, and \<^verbatim>\<open>1e16 + 1\<close> is
  \<^verbatim>\<open>1e16\<close>, so that the sum of a column depends on the order of the additions.\<close>

lemma rounded_sum:
  "fadd (as_double (Fin (1 / 10))) (as_double (Fin (2 / 10)))
     = Fin (1351079888211149 / 4503599627370496)"
  by (simp add: as_double_def double_eval)

lemma sum_order_matters:
  "fadd (fadd (Fin 10000000000000000) (Fin 1)) (Fin 1) = Fin 10000000000000000
   \<and> fadd (Fin 10000000000000000) (fadd (Fin 1) (Fin 1)) = Fin 10000000000000002"
  by (simp add: double_eval)

subsection \<open>The tables of the examples\<close>

lemmas table_defs =
  fitz_answer_def pandas_answer_def data_frame_def getitem_def to_numeric_fillna_def
  coerce_cell_def fillna_def py_float_def as_double_def float_table_def numeric_table_def
  short_sum_def value_name_def isinstance_exn_def str_def double_small

lemma scenario_index: "index_of value_name scenario_header = Some (Suc 0)"
  by (simp add: scenario_header_def value_name_def str_def)

lemma scenario_sum_rows: "sum_rows float_table (Suc 0) scenario_rows (Fin 0) = Inr (Fin (31 / 2))"
  by (simp add: scenario_rows_def table_defs)

lemma scenario_pandas:
  "pandas_answer numeric_table short_sum (scenario_header # scenario_rows) = Inr (Fin (31 / 2))"
  by (simp add: scenario_rows_def scenario_header_def table_defs)

lemma repeated_fitz: "fitz_answer float_table repeated_table = Inr (Fin 1)"
  by (simp add: repeated_table_def table_defs)

lemma repeated_pandas: "pandas_answer numeric_table add_up repeated_table = Inl TypeError"
  by (simp add: repeated_table_def table_defs)

lemma nan_fitz: "fitz_answer float_table nan_table = Inr NaN"
  by (simp add: nan_table_def table_defs)

lemma nan_pandas: "pandas_answer numeric_table short_sum nan_table = Inr (Fin 0)"
  by (simp add: nan_table_def table_defs)

text \<open>
  C2 fails on the code. On a table whose header names the value column twice, the loop
  of api/index.py sums the first of the two columns, while \<^verbatim>\<open>df['value']\<close> of main.py is
  a frame and \<^verbatim>\<open>pd.to_numeric\<close> raises \<^verbatim>\<open>TypeError\<close>; on a cell \<^verbatim>\<open>nan\<close> the loop of
  api/index.py adds NaN, while main.py replaces it by zero.
\<close>

theorem variants_differ:
  "fitz_answer float_table repeated_table = Inr (Fin 1)
   \<and> pandas_answer numeric_table short_sum repeated_table = Inl TypeError
   \<and> fitz_answer float_table nan_table = Inr NaN
   \<and> pandas_answer numeric_table short_sum nan_table = Inr (Fin 0)"
  by (simp add: repeated_fitz repeated_pandas nan_fitz nan_pandas)

section \<open>Rules for triples\<close>

lemma triple_result: "(\<And>s. P s \<Longrightarrow> Q x s) \<Longrightarrow> triple P (result x) Q E"
  by (simp add: triple_def result_def)

lemma triple_return: "(\<And>s. P s \<Longrightarrow> E s) \<Longrightarrow> triple P return_None Q E"
  by (simp add: triple_def return_None_def)

lemma triple_emit:
  "(\<And>s. P s \<Longrightarrow> Q () (s\<lparr>trace := trace s @ [ev]\<rparr>)) \<Longrightarrow> triple P (emit ev) Q E"
  by (simp add: triple_def emit_def)

lemma triple_logging:
  "(\<And>s. P s \<Longrightarrow> Q () (s\<lparr>trace := trace s @ [Log lvl msg]\<rparr>)) \<Longrightarrow> triple P (logging lvl msg) Q E"
  by (simp add: logging_def triple_emit)

lemma triple_call:
  "(\<And>s x. P s \<Longrightarrow> r = Inr x \<Longrightarrow> Q x s) \<Longrightarrow> (\<And>s e. P s \<Longrightarrow> r = Inl e \<Longrightarrow> E s)
     \<Longrightarrow> triple P (call r) Q E"
  by (cases r) (simp_all add: triple_def call_def)

lemma triple_seq:
  assumes "triple P m R E" and "\<And>x. triple (R x) (f x) Q E"
  shows "triple P (seq m f) Q E"
  unfolding triple_def
proof (intro allI impI)
  fix s assume "P s"
  with assms(1) have m: "case m s of (Next x, s') \<Rightarrow> R x s' | (Return, s') \<Rightarrow> E s' | (Raise e, s') \<Rightarrow> E s'"
    by (simp add: triple_def)
  obtain r s' where ms: "m s = (r, s')" by (cases "m s")
  show "case seq m f s of (Next x, s') \<Rightarrow> Q x s' | (Return, s') \<Rightarrow> E s' | (Raise e, s') \<Rightarrow> E s'"
  proof (cases r)
    case (Next x)
    with m ms have "R x s'" by simp
    with assms(2) [of x] have "case f x s' of (Next y, t) \<Rightarrow> Q y t | (Return, t) \<Rightarrow> E t | (Raise e, t) \<Rightarrow> E t"
      by (simp add: triple_def)
    with Next ms show ?thesis by (simp add: seq_def)
  next
    case Return
    with m ms show ?thesis by (simp add: seq_def)
  next
    case (Raise e)
    with m ms show ?thesis by (simp add: seq_def)
  qed
qed

lemma triple_try:
  assumes "triple P m Q E'"
    and "\<And>p h e. (p, h) \<in> set handlers \<Longrightarrow> triple E' (h e) Q E"
    and "\<And>s. E' s \<Longrightarrow> E s"
  shows "triple P (try_except m handlers) Q E"
  unfolding triple_def
proof (intro allI impI)
  fix s assume "P s"
  with assms(1) have m: "case m s of (Next x, s') \<Rightarrow> Q x s' | (Return, s') \<Rightarrow> E' s' | (Raise e, s') \<Rightarrow> E' s'"
    by (simp add: triple_def)
  obtain r s' where ms: "m s = (r, s')" by (cases "m s")
  show "case try_except m handlers s of (Next x, s') \<Rightarrow> Q x s' | (Return, s') \<Rightarrow> E s' | (Raise e, s') \<Rightarrow> E s'"
  proof (cases r)
    case (Next x)
    with m ms show ?thesis by (simp add: try_except_def)
  next
    case Return
    with m ms assms(3) show ?thesis by (simp add: try_except_def)
  next
    case (Raise e)
    with m ms have e': "E' s'" by simp
    show ?thesis
    proof (cases "find (\<lambda>h. fst h e) handlers")
      case None
      with Raise ms e' assms(3) show ?thesis by (simp add: try_except_def)
    next
      case (Some ph)
      then have "ph \<in> set handlers" by (auto simp: find_Some_iff)
      then have "(fst ph, snd ph) \<in> set handlers" by simp
      from assms(2) [OF this, of e] e'
      have "case snd ph e s' of (Next y, t) \<Rightarrow> Q y t | (Return, t) \<Rightarrow> E t | (Raise e, t) \<Rightarrow> E t"
        by (simp add: triple_def)
      with Raise ms Some show ?thesis by (simp add: try_except_def)
    qed
  qed
qed

lemma triple_finally:
  assumes "triple P m (\<lambda>x. R) R"
    and "triple R f (\<lambda>u s. (\<forall>x. Q x s) \<and> E s) E"
  shows "triple P (try_finally m f) Q E"
  unfolding triple_def
proof (intro allI impI)
  fix s assume "P s"
  obtain r s' where ms: "m s = (r, s')" by (cases "m s")
  with assms(1) \<open>P s\<close> have "R s'" by (cases r) (auto simp: triple_def)
  with assms(2) have f: "case f s' of (Next u, t) \<Rightarrow> (\<forall>x. Q x t) \<and> E t | (Return, t) \<Rightarrow> E t | (Raise e, t) \<Rightarrow> E t"
    by (simp add: triple_def)
  obtain r' t where fs: "f s' = (r', t)" by (cases "f s'")
  with f ms show "case try_finally m f s of (Next x, s') \<Rightarrow> Q x s' | (Return, s') \<Rightarrow> E s' | (Raise e, s') \<Rightarrow> E s'"
    by (cases r'; cases r) (simp_all add: try_finally_def)
qed

lemma triple_weaken:
  assumes "triple P' m Q' E'"
    and "\<And>s. P s \<Longrightarrow> P' s" and "\<And>x s. Q' x s \<Longrightarrow> Q x s" and "\<And>s. E' s \<Longrightarrow> E s"
  shows "triple P m Q E"
  unfolding triple_def
proof (intro allI impI)
  fix s assume "P s"
  with assms(1,2) have "case m s of (Next x, s') \<Rightarrow> Q' x s' | (Return, s') \<Rightarrow> E' s' | (Raise e, s') \<Rightarrow> E' s'"
    by (simp add: triple_def)
  with assms(3,4) show "case m s of (Next x, s') \<Rightarrow> Q x s' | (Return, s') \<Rightarrow> E s' | (Raise e, s') \<Rightarrow> E s'"
    by (auto split: prod.splits ctl.splits)
qed

lemma triple_false: "triple (\<lambda>s. False) m Q E"
  by (simp add: triple_def)

section \<open>Rules for preserved properties\<close>

lemma preserves_result: "preserves I (result x)"
  by (simp add: preserves_def triple_result)

lemma preserves_return: "preserves I return_None"
  by (simp add: preserves_def triple_return)

lemma preserves_call: "preserves I (call r)"
  by (simp add: preserves_def triple_call)

lemma preserves_raise_for_status: "preserves I (raise_for_status ok)"
  by (simp add: raise_for_status_def preserves_result preserves_call)

lemma preserves_emit: "stable ok I \<Longrightarrow> ok ev \<Longrightarrow> ev \<noteq> Launch \<Longrightarrow> preserves I (emit ev)"
  by (simp add: preserves_def stable_def triple_emit)

lemma preserves_logging: "stable ok I \<Longrightarrow> ok (Log lvl msg) \<Longrightarrow> preserves I (logging lvl msg)"
  by (simp add: logging_def preserves_emit)

lemma preserves_seq: "preserves I m \<Longrightarrow> (\<And>x. preserves I (f x)) \<Longrightarrow> preserves I (seq m f)"
  unfolding preserves_def by (rule triple_seq)

lemma preserves_try:
  "preserves I m \<Longrightarrow> list_all (\<lambda>ph. \<forall>e. preserves I (snd ph e)) handlers
     \<Longrightarrow> preserves I (try_except m handlers)"
  unfolding preserves_def
  by (rule triple_try [where E' = I]) (auto simp: list_all_iff)

lemma preserves_finally: "preserves I m \<Longrightarrow> preserves I f \<Longrightarrow> preserves I (try_finally m f)"
  unfolding preserves_def
  by (rule triple_finally [where R = I]) (auto elim: triple_weaken)

lemma preserves_if: "(b \<Longrightarrow> preserves I m) \<Longrightarrow> (\<not> b \<Longrightarrow> preserves I n) \<Longrightarrow> preserves I (if b then m else n)"
  by simp

lemma preserves_option:
  "(x = None \<Longrightarrow> preserves I m) \<Longrightarrow> (\<And>y. x = Some y \<Longrightarrow> preserves I (f y))
     \<Longrightarrow> preserves I (case x of None \<Rightarrow> m | Some y \<Rightarrow> f y)"
  by (cases x) simp_all

lemma stable_mono: "stable ok I \<Longrightarrow> (\<And>e. ok' e \<Longrightarrow> ok e) \<Longrightarrow> stable ok' I"
  unfolding stable_def by blast

lemma preservesD: "preserves I m \<Longrightarrow> I s \<Longrightarrow> m s = (r, s') \<Longrightarrow> I s'"
  by (cases r) (auto simp: preserves_def triple_def)

lemma tripleD:
  "triple P m Q E \<Longrightarrow> P s \<Longrightarrow> m s = (r, s') \<Longrightarrow> (case r of Next x \<Rightarrow> Q x s' | _ \<Rightarrow> E s')"
  by (cases r) (auto simp: triple_def)

lemmas preserves_intros =
  preserves_seq preserves_try preserves_finally preserves_result preserves_return
  preserves_call preserves_raise_for_status preserves_if preserves_option

lemma preserves_launch_browser: "stable ok I \<Longrightarrow> ok Launch \<Longrightarrow> preserves I (launch_browser w)"
  unfolding launch_browser_def
  by (rule preserves_seq, rule preserves_call) (simp add: preserves_def triple_def stable_def)

lemma preserves_navigate:
  assumes "stable early_event I"
  shows "preserves I (navigate w quiz_request)"
  unfolding navigate_def
  by (intro preserves_intros preserves_launch_browser [OF assms] preserves_emit [OF assms]
        preserves_logging [OF assms])
     (simp_all add: early_event_def preserves_seq preserves_return preserves_logging [OF assms])


lemma preserves_extract_payload:
  assumes "stable early_event I"
  shows "preserves I (extract_payload w)"
  unfolding extract_payload_def
  by (intro preserves_intros preserves_logging [OF assms])
     (simp_all add: early_event_def preserves_seq preserves_call preserves_logging [OF assms])

lemma preserves_find_download_link:
  assumes "stable early_event I"
  shows "preserves I (find_download_link sp)"
  unfolding find_download_link_def
  by (intro preserves_intros preserves_logging [OF assms]) (simp_all add: early_event_def)

lemma preserves_find_submission_url:
  assumes "stable early_event I"
  shows "preserves I (find_submission_url w question_text)"
  unfolding find_submission_url_def
  by (intro preserves_intros preserves_logging [OF assms]) (simp_all add: early_event_def)

lemma preserves_quiz_details:
  assumes "stable early_event I"
  shows "preserves I (quiz_details w sp)"
  unfolding quiz_details_def
  by (intro preserves_intros preserves_find_download_link [OF assms]
        preserves_find_submission_url [OF assms] preserves_logging [OF assms])
     (simp_all add: early_event_def preserves_seq preserves_return preserves_logging [OF assms])

lemma preserves_solve_pdf_main:
  assumes "stable solver_event I"
  shows "preserves I (solve_pdf_main w download_link)"
  unfolding solve_pdf_main_def
  by (intro preserves_intros preserves_logging [OF assms] preserves_emit [OF assms])
     (simp_all add: solver_event_def preserves_seq preserves_return preserves_call
        preserves_logging [OF assms])

lemma preserves_sum_first_table:
  assumes "stable solver_event I"
  shows "preserves I (sum_first_table w table_data)"
  unfolding sum_first_table_def
  by (intro preserves_intros preserves_logging [OF assms] preserves_emit [OF assms])
     (simp_all add: solver_event_def preserves_seq preserves_return preserves_logging [OF assms])

lemma preserves_solve_pdf_index:
  assumes "stable solver_event I"
  shows "preserves I (solve_pdf_index w download_link)"
  unfolding solve_pdf_index_def
  by (intro preserves_intros preserves_logging [OF assms] preserves_emit [OF assms]
        preserves_sum_first_table [OF assms])
     (simp_all add: solver_event_def preserves_seq preserves_return preserves_logging [OF assms])

lemma preserves_solve:
  assumes "stable solver_event I"
  shows "preserves I (solve v w question_text download_link)"
  unfolding solve_def
  by (cases v)
     (auto intro!: preserves_intros preserves_logging [OF assms] preserves_solve_pdf_main [OF assms]
        preserves_solve_pdf_index [OF assms] simp: solver_event_def)


lemma preserves_schedule_next: "stable ok I \<Longrightarrow> preserves I (schedule_next r)"
  by (simp add: preserves_def triple_def schedule_next_def stable_def)

lemma preserves_interpret_response:
  assumes "stable ok I" and "\<And>lvl msg. ok (Log lvl msg)"
  shows "preserves I (interpret_response quiz_request response_json)"
  unfolding interpret_response_def
  by (intro preserves_intros preserves_logging [OF assms(1)] preserves_schedule_next [OF assms(1)])
     (simp_all add: assms(2))

lemma preserves_with_playwright: "preserves I body \<Longrightarrow> preserves I (with_playwright w body)"
  unfolding with_playwright_def by (intro preserves_intros) simp_all

lemma preserves_case_prod:
  "(\<And>a b. preserves I (f a b)) \<Longrightarrow> preserves I (case x of (a, b) \<Rightarrow> f a b)"
  by (cases x) simp


lemma preserves_submit:
  assumes "stable ok I" and "\<And>lvl msg. ok (Log lvl msg)" and "\<And>u p. ok (Post u p)"
  shows "preserves I (submit w quiz_request submission_url answer)"
  unfolding submit_def Let_def
  by (intro preserves_intros preserves_logging [OF assms(1)] preserves_emit [OF assms(1)]
        preserves_interpret_response [OF assms(1,2)])
     (simp_all add: assms(2,3) preserves_logging [OF assms(1)])

lemma preserves_pipeline:
  assumes "stable pipeline_event I"
  shows "preserves I (pipeline v w quiz_request)"
proof -
  have early: "stable early_event I" and solver: "stable solver_event I"
    using assms by (auto elim!: stable_mono simp: early_event_def solver_event_def pipeline_event_def)
  show ?thesis
    unfolding pipeline_def
    by (intro preserves_intros preserves_case_prod preserves_navigate [OF early]
          preserves_extract_payload [OF early] preserves_quiz_details [OF early]
          preserves_solve [OF solver] preserves_submit [OF assms]
          preserves_logging [OF assms])
       (simp_all add: pipeline_event_def)
qed

lemma stable_browser_held: "stable pipeline_event browser_held"
  by (auto simp: stable_def browser_held_def pipeline_event_def)

section \<open>Failure containment and teardown\<close>

lemma catch_all_never_raises:
  "fst (try_except m [(any_exception, \<lambda>e. logging lvl (f e))] s) \<noteq> Raise e"
  by (simp add: try_except_def any_exception_def logging_def emit_def
        split: prod.splits ctl.splits)

text \<open>The run, seen from its \<^verbatim>\<open>finally\<close> block: the outcome of the guarded pipeline
  stands when no browser was launched or the browser closes, and is replaced by the
  exception of \<^verbatim>\<open>browser.close()\<close> when that call raises.\<close>

lemma solve_quiz_eq:
  "solve_quiz v w quiz_request s =
     (case try_except (with_playwright w (pipeline v w quiz_request))
             [(any_exception, \<lambda>e. logging Critical (Unexpected e))]
             (s\<lparr>trace := trace s @ [Log Info (Received (url quiz_request))]\<rparr>) of
        (r, s') \<Rightarrow>
          if browser s' then
            (case browser_close w of
               Inr u \<Rightarrow> (r, s'\<lparr>trace := trace s' @ [Close, Log Info BrowserClosed]\<rparr>)
             | Inl e \<Rightarrow> (Raise e, s'\<lparr>trace := trace s' @ [Close]\<rparr>))
          else (r, s'))"
  by (simp add: solve_quiz_def seq_def logging_def emit_def try_finally_def close_browser_def
        call_def result_def split: prod.splits sum.splits)

lemma solve_quiz_trace:
  "trace (snd (solve_quiz v w quiz_request s))
     \<in> (\<lambda>tail. trace (snd (try_except (with_playwright w (pipeline v w quiz_request))
                        [(any_exception, \<lambda>e. logging Critical (Unexpected e))]
                        (s\<lparr>trace := trace s @ [Log Info (Received (url quiz_request))]\<rparr>))) @ tail)
         ` {[], [Close], [Close, Log Info BrowserClosed]}"
  by (simp add: solve_quiz_eq split: prod.splits sum.splits)

lemma preserves_guarded_pipeline:
  assumes "stable pipeline_event I" and "pipeline_event (Log Critical (Unexpected e))"
  shows "preserves I (try_except (with_playwright w (pipeline v w quiz_request))
                         [(any_exception, \<lambda>e. logging Critical (Unexpected e))])"
  by (intro preserves_try preserves_with_playwright preserves_pipeline [OF assms(1)])
     (simp add: preserves_logging [OF assms(1)] pipeline_event_def)

text \<open>
  C8 (as amended). Whatever the collaborators return or raise inside the \<^verbatim>\<open>try\<close> block,
  \<^verbatim>\<open>solve_quiz\<close> does not raise it to its caller. A run that launched a browser ends by
  calling \<^verbatim>\<open>close()\<close> on it, once; when that call raises, its exception is the outcome of
  \<^verbatim>\<open>solve_quiz\<close>, and it is the only exception that is. A run that launched no browser
  closes none and raises nothing.
\<close>

theorem run_contained:
  "(if Launch \<in> set (trace (snd (solve_quiz v w quiz_request initial_state))) then
      (case browser_close w of
         Inr u \<Rightarrow>
           fst (solve_quiz v w quiz_request initial_state) \<noteq> Raise e
           \<and> (\<exists>pre. trace (snd (solve_quiz v w quiz_request initial_state))
                       = pre @ [Close, Log Info BrowserClosed] \<and> Close \<notin> set pre)
       | Inl x \<Rightarrow>
           fst (solve_quiz v w quiz_request initial_state) = Raise x
           \<and> (\<exists>pre. trace (snd (solve_quiz v w quiz_request initial_state))
                       = pre @ [Close] \<and> Close \<notin> set pre))
    else fst (solve_quiz v w quiz_request initial_state) \<noteq> Raise e
         \<and> Close \<notin> set (trace (snd (solve_quiz v w quiz_request initial_state))))"
proof -
  let ?body = "try_except (with_playwright w (pipeline v w quiz_request))
                 [(any_exception, \<lambda>e. logging Critical (Unexpected e))]"
  let ?s1 = "initial_state\<lparr>trace := trace initial_state @ [Log Info (Received (url quiz_request))]\<rparr>"
  obtain r s2 where body: "?body ?s1 = (r, s2)" by (cases "?body ?s1")
  have start: "browser_held ?s1" by (simp add: browser_held_def initial_state_def)
  have "preserves browser_held ?body"
    by (rule preserves_guarded_pipeline [OF stable_browser_held]) (simp add: pipeline_event_def)
  from preservesD [OF this start body] have held: "browser_held s2" .
  from catch_all_never_raises [of "with_playwright w (pipeline v w quiz_request)" Critical Unexpected ?s1 e]
    body have nr: "r \<noteq> Raise e" by simp
  show ?thesis
  proof (cases "browser s2")
    case False
    with body have "solve_quiz v w quiz_request initial_state = (r, s2)"
      by (simp add: solve_quiz_eq)
    with held False nr show ?thesis by (simp add: browser_held_def)
  next
    case True
    show ?thesis
    proof (cases "browser_close w")
      case (Inl x)
      with True body have "solve_quiz v w quiz_request initial_state
                             = (Raise x, s2\<lparr>trace := trace s2 @ [Close]\<rparr>)"
        by (simp add: solve_quiz_eq)
      with held True Inl show ?thesis by (simp add: browser_held_def)
    next
      case (Inr u)
      with True body have "solve_quiz v w quiz_request initial_state
                             = (r, s2\<lparr>trace := trace s2 @ [Close, Log Info BrowserClosed]\<rparr>)"
        by (simp add: solve_quiz_eq)
      with held True Inr nr show ?thesis by (simp add: browser_held_def)
    qed
  qed
qed


section \<open>One justified submission\<close>

lemma stable_no_post: "stable solver_event no_post"
  by (auto simp: stable_def no_post_def solver_event_def)

lemma stable_url_found: "stable solver_event (url_found su)"
  by (auto simp: stable_def url_found_def no_post_def solver_event_def)

lemma submitted_once_append:
  assumes "submitted_once tr" and "\<not> is_Post ev"
  shows "submitted_once (tr @ [ev])"
proof -
  from assms(1) consider "\<forall>e\<in>set tr. \<not> is_Post e"
    | pre u p post where "tr = pre @ Post u p # post"
        "\<forall>e\<in>set pre. \<not> is_Post e" "\<forall>e\<in>set post. \<not> is_Post e"
        "Log Info (FoundSubmissionUrl u) \<in> set pre"
        "Log Info (CalculatedSum (payload_answer p)) \<in> set pre"
    unfolding submitted_once_def by blast
  then show ?thesis
  proof cases
    case 1
    with assms(2) show ?thesis by (simp add: submitted_once_def)
  next
    case 2
    then have "tr @ [ev] = pre @ Post u p # (post @ [ev])"
      and "\<forall>e\<in>set (post @ [ev]). \<not> is_Post e" using assms(2) by simp_all
    with 2 show ?thesis unfolding submitted_once_def by blast
  qed
qed

lemma stable_submitted_once: "stable not_Post (\<lambda>s. submitted_once (trace s))"
  by (simp add: stable_def not_Post_def submitted_once_append)


lemmas monad_defs =
  seq_def result_def emit_def logging_def call_def return_None_def try_except_def
  try_finally_def any_exception_def raise_for_status_def

lemma triple_of_preserves:
  "preserves I m \<Longrightarrow> (\<And>s. I s \<Longrightarrow> E s) \<Longrightarrow> triple I m (\<lambda>x. I) E"
  unfolding preserves_def by (erule triple_weaken) simp_all

lemma triple_quiz_details:
  "triple no_post (quiz_details w sp) (\<lambda>(download_link, su). url_found su) no_post"
  unfolding triple_def quiz_details_def find_download_link_def find_submission_url_def
  by (auto simp: monad_defs url_found_def no_post_def split: option.splits sum.splits)

lemma triple_solve_pdf_main:
  "triple (url_found su) (solve_pdf_main w link) (ready_to_submit su) (url_found su)"
  unfolding triple_def solve_pdf_main_def
  by (auto simp: monad_defs ready_to_submit_def url_found_def no_post_def
        split: option.splits sum.splits)

lemma triple_solve_pdf_index:
  "triple (url_found su) (solve_pdf_index w link) (ready_to_submit su) (url_found su)"
  unfolding triple_def solve_pdf_index_def sum_first_table_def
  by (auto simp: monad_defs ready_to_submit_def url_found_def no_post_def
        split: option.splits sum.splits)

lemma triple_solve:
  "triple (url_found su) (solve v w question_text download_link) (ready_to_submit su) (url_found su)"
proof -
  have skip: "triple (url_found su) (seq (logging Warning NotRecognized) (\<lambda>u. return_None))
                (ready_to_submit su) (url_found su)"
    by (auto simp: triple_def monad_defs url_found_def no_post_def)
  show ?thesis
    unfolding solve_def
    by (cases v; cases download_link)
       (simp_all add: skip triple_solve_pdf_main triple_solve_pdf_index)
qed


lemma no_post_submitted_once: "no_post s \<Longrightarrow> submitted_once (trace s)"
  by (simp add: no_post_def submitted_once_def)

lemma post_submitted_once:
  assumes "ready_to_submit su (Some a) s" and "payload_answer p = a"
  shows "submitted_once (trace s @ [Log Info (Submitting p), Post su p])"
proof -
  let ?pre = "trace s @ [Log Info (Submitting p)]"
  from assms have "\<forall>e\<in>set ?pre. \<not> is_Post e"
    and "Log Info (FoundSubmissionUrl su) \<in> set ?pre"
    and "Log Info (CalculatedSum (payload_answer p)) \<in> set ?pre"
    by (auto simp: ready_to_submit_def url_found_def no_post_def)
  moreover have "trace s @ [Log Info (Submitting p), Post su p] = ?pre @ Post su p # []"
    by simp
  ultimately show ?thesis unfolding submitted_once_def by (metis empty_iff list.set(1))
qed

lemma triple_submit:
  "triple (ready_to_submit su answer) (submit w quiz_request su answer)
     (\<lambda>u s. submitted_once (trace s)) (\<lambda>s. submitted_once (trace s))"
proof (cases answer)
  case None
  then show ?thesis
    by (auto simp: submit_def triple_def result_def ready_to_submit_def url_found_def
          intro: no_post_submitted_once)
next
  case (Some a)
  let ?S = "\<lambda>s. submitted_once (trace s)"
  let ?p = "\<lparr>payload_email = email quiz_request, payload_secret = secret quiz_request,
             payload_url = url quiz_request, payload_answer = a\<rparr>"
  have st: "stable not_Post ?S" by (rule stable_submitted_once)
  have logs: "\<And>lvl msg. not_Post (Log lvl msg)" by (simp add: not_Post_def)
  have head: "triple (ready_to_submit su (Some a))
                (seq (logging Info (Submitting ?p)) (\<lambda>u. emit (Post su ?p))) (\<lambda>u. ?S) ?S"
    using post_submitted_once [of su a _ ?p]
    by (simp add: triple_def monad_defs)
  have rest: "preserves ?S
     (seq (call (requests_post w su ?p)) (\<lambda>submission_response.
      seq (raise_for_status (post_status_ok submission_response)) (\<lambda>u.
      seq (call (json_body submission_response)) (\<lambda>response_json.
      seq (logging Info (SubmissionResponse response_json)) (\<lambda>u.
      interpret_response quiz_request response_json)))))"
    by (intro preserves_intros preserves_logging [OF st] preserves_interpret_response [OF st])
       (simp_all add: logs)
  have body: "triple (ready_to_submit su (Some a))
     (seq (seq (logging Info (Submitting ?p)) (\<lambda>u. emit (Post su ?p))) (\<lambda>u.
      seq (call (requests_post w su ?p)) (\<lambda>submission_response.
      seq (raise_for_status (post_status_ok submission_response)) (\<lambda>u.
      seq (call (json_body submission_response)) (\<lambda>response_json.
      seq (logging Info (SubmissionResponse response_json)) (\<lambda>u.
      interpret_response quiz_request response_json))))))
     (\<lambda>u. ?S) ?S"
    by (rule triple_seq [OF head]) (rule rest [unfolded preserves_def])
  have assoc: "seq (seq m f) g = seq m (\<lambda>x. seq (f x) g)" for m :: "'a run" and f :: "'a \<Rightarrow> 'b run" and g :: "'b \<Rightarrow> 'c run"
    by (auto simp: seq_def fun_eq_iff split: prod.splits ctl.splits)
  have "triple (ready_to_submit su (Some a))
          (try_except
             (seq (logging Info (Submitting ?p)) (\<lambda>u.
              seq (emit (Post su ?p)) (\<lambda>u.
              seq (call (requests_post w su ?p)) (\<lambda>submission_response.
              seq (raise_for_status (post_status_ok submission_response)) (\<lambda>u.
              seq (call (json_body submission_response)) (\<lambda>response_json.
              seq (logging Info (SubmissionResponse response_json)) (\<lambda>u.
              interpret_response quiz_request response_json)))))))
             [(\<lambda>e. isinstance_exn e RequestException, \<lambda>e. logging Error (SubmitFailed e)),
              (\<lambda>e. isinstance_exn e JSONDecodeError, \<lambda>e. logging Error JsonFailed)])
          (\<lambda>u. ?S) ?S"
    using body unfolding assoc
    by (rule triple_try)
       (auto simp: logs intro!: preserves_logging [OF st, unfolded preserves_def])
  with Some show ?thesis by (simp add: submit_def Let_def)
qed


lemma triple_pipeline:
  "triple no_post (pipeline v w quiz_request)
     (\<lambda>u s. submitted_once (trace s)) (\<lambda>s. submitted_once (trace s))"
proof -
  let ?S = "\<lambda>s. submitted_once (trace s)"
  have early: "stable early_event no_post"
    by (rule stable_mono [OF stable_no_post]) (simp add: early_event_def solver_event_def)
  have found: "url_found su s \<Longrightarrow> ?S s" for su s
    by (simp add: url_found_def no_post_submitted_once)
  have tail: "triple (url_found su)
                (seq (solve v w question_text download_link)
                   (\<lambda>answer. submit w quiz_request su answer)) (\<lambda>u. ?S) ?S"
    for su question_text download_link
    by (rule triple_seq [where R = "ready_to_submit su"])
       (rule triple_weaken [OF triple_solve], auto intro: found triple_submit)
  have details: "triple no_post
                   (seq (quiz_details w sp) (\<lambda>(download_link, submission_url).
                      seq (solve v w (get_text sp) download_link)
                        (\<lambda>answer. submit w quiz_request submission_url answer)))
                   (\<lambda>u. ?S) ?S" for sp
    by (rule triple_seq [where R = "\<lambda>(download_link, su). url_found su"])
       (rule triple_weaken [OF triple_quiz_details],
        auto simp: no_post_submitted_once tail)
  show ?thesis
    unfolding pipeline_def
    apply (rule triple_seq [OF triple_of_preserves [OF preserves_navigate [OF early]]])
     apply (erule no_post_submitted_once)
    apply (rule triple_seq [OF triple_of_preserves [OF preserves_extract_payload [OF early]]])
     apply (erule no_post_submitted_once)
    apply (rule triple_seq [OF triple_of_preserves [OF preserves_call]])
     apply (erule no_post_submitted_once)
    apply (rule triple_seq [OF triple_of_preserves [OF preserves_logging [OF early]]])
      apply (simp add: early_event_def)
     apply (erule no_post_submitted_once)
    apply (rule details)
    done
qed

lemma triple_with_playwright:
  assumes "triple P body (\<lambda>u. S) S" and "\<And>s. P s \<Longrightarrow> S s"
  shows "triple P (with_playwright w body) (\<lambda>u. S) S"
  unfolding with_playwright_def
proof (rule triple_seq [where R = "\<lambda>u. P"])
  show "triple P (call (start_playwright w)) (\<lambda>u. P) S"
    by (rule triple_call) (simp_all add: assms(2))
next
  fix u :: unit
  show "triple P (try_finally body (call (stop_playwright w))) (\<lambda>u. S) S"
    by (rule triple_finally [where R = S]) (rule assms(1), rule triple_call, simp_all)
qed

lemma submitted_once_run:
  "submitted_once (trace (snd (solve_quiz v w quiz_request initial_state)))"
proof -
  let ?S = "\<lambda>s. submitted_once (trace s)"
  let ?body = "try_except (with_playwright w (pipeline v w quiz_request))
                 [(any_exception, \<lambda>e. logging Critical (Unexpected e))]"
  let ?s1 = "initial_state\<lparr>trace := trace initial_state @ [Log Info (Received (url quiz_request))]\<rparr>"
  have st: "stable not_Post ?S" by (rule stable_submitted_once)
  have "triple no_post ?body (\<lambda>u. ?S) ?S"
    by (rule triple_try [where E' = ?S])
       (auto intro!: triple_with_playwright triple_pipeline no_post_submitted_once
          preserves_logging [OF st, unfolded preserves_def] simp: not_Post_def)
  moreover have "no_post ?s1" by (simp add: no_post_def initial_state_def)
  moreover obtain r s2 where body: "?body ?s1 = (r, s2)" by (cases "?body ?s1")
  ultimately have s2: "?S s2" by (cases r) (auto simp: triple_def)
  have c1: "submitted_once (trace s2 @ [Close])"
    by (rule submitted_once_append [OF s2]) simp
  have "submitted_once ((trace s2 @ [Close]) @ [Log Info BrowserClosed])"
    by (rule submitted_once_append [OF c1]) simp
  then have c2: "submitted_once (trace s2 @ [Close, Log Info BrowserClosed])" by simp
  from solve_quiz_trace [of v w quiz_request initial_state] body
  have "trace (snd (solve_quiz v w quiz_request initial_state))
          \<in> {trace s2, trace s2 @ [Close], trace s2 @ [Close, Log Info BrowserClosed]}"
    by simp
  with s2 c1 c2 show ?thesis by auto
qed

section \<open>The example runs\<close>

lemma demo_urls: "findall_urls no_ucd demo_text = [str ''https://submit.org'']"
  by code_simp

lemma demo_marker: "contains marker demo_text"
  by code_simp

lemma demo_select: "select_submission [str ''https://submit.org''] = Some (str ''https://submit.org'')"
  by code_simp

lemma plain_urls: "findall_urls no_ucd (str ''to https://ex.org/submit'') = [str ''https://ex.org'']"
  by code_simp

lemma plain_no_submit: "\<not> contains (str ''submit'') (str ''https://ex.org'')"
  by code_simp

lemma demo_split: "split_on 96 demo_script = [str ''atob('', demo_base64, str '')'']"
  by (simp add: demo_script_def demo_base64_def str_def)

lemma documents_distinct:
  "plain_html \<noteq> demo_html" "nohref_html \<noteq> demo_html" "nohref_html \<noteq> plain_html"
  by (simp_all add: plain_html_def demo_html_def nohref_html_def str_def)

lemma tables_nonempty: "repeated_table \<noteq> []" "nan_table \<noteq> []"
  by (simp_all add: repeated_table_def nan_table_def)

text \<open>The loop of api/index.py computes \<open>fitz_answer\<close>.\<close>

lemma sum_rows_error: "sum_rows fl i rows acc = Inl e \<Longrightarrow> e = IndexError"
  by (induction rows arbitrary: acc)
     (auto simp: py_float_def isinstance_exn_def split: if_splits sum.splits option.splits)

lemma sum_first_table_eq:
  "sum_first_table w table_data s =
     (case fitz_answer (float_reader w) table_data of
        Inr a \<Rightarrow> (Next (Some a), s\<lparr>trace := trace s @ [Log Info (CalculatedSum a)]\<rparr>)
      | Inl e \<Rightarrow>
          if e = ValueError then (Return, s\<lparr>trace := trace s @ [Log Error NoValueColumn]\<rparr>)
          else (Raise e, s))"
proof (cases table_data)
  case Nil
  then show ?thesis
    by (simp add: sum_first_table_def fitz_answer_def subscript_def seq_def call_def)
next
  case (Cons header rows)
  show ?thesis
  proof (cases "index_of value_name header")
    case None
    with Cons show ?thesis
      by (simp add: sum_first_table_def fitz_answer_def subscript_def seq_def call_def
            try_except_def isinstance_exn_def logging_def emit_def return_None_def)
  next
    case (Some i)
    show ?thesis
    proof (cases "sum_rows (float_reader w) i rows (Fin 0)")
      case (Inl e)
      from sum_rows_error [OF this] Inl Some Cons show ?thesis
        by (simp add: sum_first_table_def fitz_answer_def subscript_def seq_def call_def
              try_except_def)
    next
      case (Inr a)
      with Some Cons show ?thesis
        by (simp add: sum_first_table_def fitz_answer_def subscript_def seq_def call_def
              try_except_def logging_def emit_def result_def)
    qed
  qed
qed

lemmas run_defs =
  solve_quiz_def with_playwright_def pipeline_def navigate_def launch_browser_def
  extract_payload_def quiz_details_def find_download_link_def find_submission_url_def
  solve_def solve_pdf_main_def solve_pdf_index_def finder_is_true_def submit_def
  interpret_response_def schedule_next_def add_task_def close_browser_def
  seq_def result_def emit_def logging_def call_def return_None_def try_except_def
  try_finally_def any_exception_def raise_for_status_def subscript_def tag_getitem_def
  json_get_def new_QuizRequest_def isinstance_exn_def Let_def

lemmas world_defs =
  demo_world_def demo_b64decode_def demo_utf8_decode_def demo_parser_def demo_soup_def
  demo_page_def table_page_def blank_page_def demo_response_def demo_payload_def
  demo_next_request_def initial_state_def demo_split demo_urls demo_marker demo_select
  sum_first_table_eq fitz_answer_def scenario_index scenario_sum_rows scenario_pandas str_def

lemma demo_run_index:
  "solve_quiz IndexPy demo_world demo_request initial_state
     = (Next (), \<lparr>browser = True, trace = demo_trace, background_tasks = Some [demo_next_request]\<rparr>)"
  by (simp add: run_defs world_defs demo_trace_def)

lemma demo_run_main:
  "solve_quiz MainPy demo_world demo_request initial_state
     = (Next (), \<lparr>browser = True, trace = demo_trace, background_tasks = Some [demo_next_request]\<rparr>)"
  by (simp add: run_defs world_defs demo_trace_def)

lemma stuck_run:
  "solve_quiz IndexPy stuck_browser_world demo_request initial_state
     = (Raise PlaywrightError,
        \<lparr>browser = True, trace = butlast demo_trace, background_tasks = Some [demo_next_request]\<rparr>)"
  by (simp add: run_defs world_defs demo_trace_def stuck_browser_world_def)

text \<open>
  C3 fails on the code. The table of the PDF names the value column twice: main.py
  raises \<^verbatim>\<open>TypeError\<close> in \<^verbatim>\<open>pd.to_numeric\<close>, the \<^verbatim>\<open>except\<close> clause that names
  \<^verbatim>\<open>pdfplumber.PDFSyntaxError\<close> raises \<^verbatim>\<open>AttributeError\<close>, and the run ends in the
  catch-all without an answer, where api/index.py answers the sum of the first of the
  two columns. And on a value column that holds \<^verbatim>\<open>nan\<close> api/index.py answers NaN, not
  zero.
\<close>

theorem repeated_header_no_answer:
  "solve_quiz MainPy repeated_world demo_request initial_state
     = (Next (),
        \<lparr>browser = True,
         trace = [Log Info (Received (url demo_request)), Launch, Goto (url demo_request),
                  Log Info (NavigatedTo (url demo_request)), Log Info ExtractedPayload,
                  Log Info (QuestionText demo_text),
                  Log Info (FoundDownloadLink (str ''https://files.example.org'')),
                  Log Info (FoundSubmissionUrl (str ''https://submit.org'')),
                  Log Info AttemptingPdfSum, Get (str ''https://files.example.org''),
                  Log Info DownloadedPdf, Log Critical (Unexpected AttributeError),
                  Close, Log Info BrowserClosed],
         background_tasks = None\<rparr>)
   \<and> solve_pdf_index repeated_world (str ''https://files.example.org'') initial_state
     = (Next (Some (Fin 1)),
        initial_state\<lparr>trace := [Log Info AttemptingPdfSum, Get (str ''https://files.example.org''),
                                Log Info DownloadedPdf, Log Info (CalculatedSum (Fin 1))]\<rparr>)
   \<and> solve_pdf_index nan_world (str ''https://files.example.org'') initial_state
     = (Next (Some NaN),
        initial_state\<lparr>trace := [Log Info AttemptingPdfSum, Get (str ''https://files.example.org''),
                                Log Info DownloadedPdf, Log Info (CalculatedSum NaN)]\<rparr>)"
proof (intro conjI)
  show "solve_quiz MainPy repeated_world demo_request initial_state
     = (Next (),
        \<lparr>browser = True,
         trace = [Log Info (Received (url demo_request)), Launch, Goto (url demo_request),
                  Log Info (NavigatedTo (url demo_request)), Log Info ExtractedPayload,
                  Log Info (QuestionText demo_text),
                  Log Info (FoundDownloadLink (str ''https://files.example.org'')),
                  Log Info (FoundSubmissionUrl (str ''https://submit.org'')),
                  Log Info AttemptingPdfSum, Get (str ''https://files.example.org''),
                  Log Info DownloadedPdf, Log Critical (Unexpected AttributeError),
                  Close, Log Info BrowserClosed],
         background_tasks = None\<rparr>)"
    by (simp add: run_defs world_defs repeated_world_def tables_nonempty repeated_pandas)
  show "solve_pdf_index repeated_world (str ''https://files.example.org'') initial_state
     = (Next (Some (Fin 1)),
        initial_state\<lparr>trace := [Log Info AttemptingPdfSum, Get (str ''https://files.example.org''),
                                Log Info DownloadedPdf, Log Info (CalculatedSum (Fin 1))]\<rparr>)"
    by (simp add: run_defs demo_world_def table_page_def blank_page_def initial_state_def
          repeated_world_def sum_first_table_eq repeated_fitz)
  show "solve_pdf_index nan_world (str ''https://files.example.org'') initial_state
     = (Next (Some NaN),
        initial_state\<lparr>trace := [Log Info AttemptingPdfSum, Get (str ''https://files.example.org''),
                                Log Info DownloadedPdf, Log Info (CalculatedSum NaN)]\<rparr>)"
    by (simp add: run_defs demo_world_def table_page_def blank_page_def initial_state_def
          nan_world_def sum_first_table_eq nan_fitz)
qed

section \<open>The claims about the run\<close>

lemma submitted_once_posts:
  assumes "submitted_once tr"
  shows "length (filter is_Post tr) \<le> 1
     \<and> (\<forall>u p. Post u p \<in> set tr \<longrightarrow>
           (\<exists>pre post. tr = pre @ Post u p # post
              \<and> Log Info (FoundSubmissionUrl u) \<in> set pre
              \<and> Log Info (CalculatedSum (payload_answer p)) \<in> set pre))"
proof -
  from assms consider "\<forall>e\<in>set tr. \<not> is_Post e"
    | pre u p post where "tr = pre @ Post u p # post"
        "\<forall>e\<in>set pre. \<not> is_Post e" "\<forall>e\<in>set post. \<not> is_Post e"
        "Log Info (FoundSubmissionUrl u) \<in> set pre"
        "Log Info (CalculatedSum (payload_answer p)) \<in> set pre"
    unfolding submitted_once_def by blast
  then show ?thesis
  proof cases
    case 1
    then have "filter is_Post tr = []" by (simp add: filter_empty_conv)
    moreover have "Post u p \<notin> set tr" for u p
    proof
      assume "Post u p \<in> set tr"
      with 1 have "\<not> is_Post (Post u p)" by blast
      then show False by simp
    qed
    ultimately show ?thesis by simp
  next
    case 2
    have "filter is_Post pre = []" "filter is_Post post = []"
      using 2(2,3) by (simp_all add: filter_empty_conv)
    with 2(1) have len: "length (filter is_Post tr) \<le> 1" by simp
    have just: "\<exists>pre post. tr = pre @ Post u' p' # post
              \<and> Log Info (FoundSubmissionUrl u') \<in> set pre
              \<and> Log Info (CalculatedSum (payload_answer p')) \<in> set pre"
      if "Post u' p' \<in> set tr" for u' p'
    proof -
      from that 2(1) have "Post u' p' \<in> set pre \<or> Post u' p' = Post u p \<or> Post u' p' \<in> set post"
        by auto
      moreover have "Post u' p' \<notin> set pre"
      proof
        assume "Post u' p' \<in> set pre"
        with 2(2) have "\<not> is_Post (Post u' p')" by blast
        then show False by simp
      qed
      moreover have "Post u' p' \<notin> set post"
      proof
        assume "Post u' p' \<in> set post"
        with 2(3) have "\<not> is_Post (Post u' p')" by blast
        then show False by simp
      qed
      ultimately have "u' = u" "p' = p" by simp_all
      with 2(1,4,5) show ?thesis by blast
    qed
    from len just show ?thesis by blast
  qed
qed

text \<open>
  C7. In every run at most one submission POST is performed, and a POST is preceded, in
  the same run, by the discovery of the URL it is sent to and by the calculation of the
  answer it carries.
\<close>

theorem single_justified_submission:
  "(let tr = trace (snd (solve_quiz v w quiz_request initial_state)) in
      length (filter is_Post tr) \<le> 1
      \<and> (\<forall>u p. Post u p \<in> set tr \<longrightarrow>
            (\<exists>pre post. tr = pre @ Post u p # post
               \<and> Log Info (FoundSubmissionUrl u) \<in> set pre
               \<and> Log Info (CalculatedSum (payload_answer p)) \<in> set pre)))"
  using submitted_once_posts [OF submitted_once_run [of v w quiz_request]]
  by (simp add: Let_def)

theorem single_justified_submission_witness:
  "Post (str ''https://submit.org'') demo_payload
     \<in> set (trace (snd (solve_quiz IndexPy demo_world demo_request initial_state)))
   \<and> (\<exists>pre post. trace (snd (solve_quiz IndexPy demo_world demo_request initial_state))
                    = pre @ Post (str ''https://submit.org'') demo_payload # post
         \<and> Log Info (FoundSubmissionUrl (str ''https://submit.org'')) \<in> set pre
         \<and> Log Info (CalculatedSum (Fin (31 / 2))) \<in> set pre)"
proof -
  have h: "Post (str ''https://submit.org'') demo_payload
     \<in> set (trace (snd (solve_quiz IndexPy demo_world demo_request initial_state)))"
    by (simp add: demo_run_index demo_trace_def)
  have a: "payload_answer demo_payload = Fin (31 / 2)" by (simp add: demo_payload_def)
  from single_justified_submission [of IndexPy demo_world demo_request] h
  obtain pre post where
    "trace (snd (solve_quiz IndexPy demo_world demo_request initial_state))
       = pre @ Post (str ''https://submit.org'') demo_payload # post"
    "Log Info (FoundSubmissionUrl (str ''https://submit.org'')) \<in> set pre"
    "Log Info (CalculatedSum (payload_answer demo_payload)) \<in> set pre"
    unfolding Let_def by blast
  with h a show ?thesis by auto
qed

text \<open>
  C9. With \<^verbatim>\<open>SECRET\<close> unset, every request is rejected with status 403 and no run is
  scheduled or started.
\<close>

theorem unset_secret_rejects_all:
  "receive_quiz None quiz_request tasks
     = (Inl (HTTPException 403 ''Invalid secret''), tasks,
        [Log Warning (InvalidSecret (email quiz_request))])
   \<and> runs_of_request None quiz_request = []
   \<and> serve v w None quiz_request = []"
  by (simp add: receive_quiz_def runs_of_request_def serve_def)

text \<open>
  C1 fails on the code. The endpoint answers \<^verbatim>\<open>{"correct": true, "url": "https://x/next"}\<close>:
  in both variants the run builds the new request, with the same email and secret, and
  adds it to a \<^verbatim>\<open>BackgroundTasks\<close> object of its own, which is dropped when the run ends;
  the one run that the inbound request starts is the run of that request.
\<close>

theorem chained_run_never_started:
  "solve_quiz MainPy demo_world demo_request initial_state
     = (Next (), \<lparr>browser = True, trace = demo_trace,
                  background_tasks = Some [demo_next_request]\<rparr>)
   \<and> solve_quiz IndexPy demo_world demo_request initial_state
     = (Next (), \<lparr>browser = True, trace = demo_trace,
                  background_tasks = Some [demo_next_request]\<rparr>)
   \<and> runs_of_request (Some (secret demo_request)) demo_request = [demo_request]
   \<and> demo_next_request \<notin> set (runs_of_request (Some (secret demo_request)) demo_request)"
proof -
  have "runs_of_request (Some (secret demo_request)) demo_request = [demo_request]"
    by (simp add: runs_of_request_def receive_quiz_def add_task_def)
  moreover have "demo_next_request \<noteq> demo_request"
    by (simp add: demo_next_request_def demo_request_def str_def)
  ultimately show ?thesis by (simp add: demo_run_main demo_run_index)
qed

section \<open>The Payload Extractor\<close>

text \<open>The second piece of \<^verbatim>\<open>split('`')\<close> is the second backtick-delimited segment.\<close>

lemma split_on_Cons:
  "split_on d s =
     takeWhile (\<lambda>c. c \<noteq> d) s
       # (if d \<in> set s then split_on d (tl (dropWhile (\<lambda>c. c \<noteq> d) s)) else [])"
proof (induction s)
  case Nil
  then show ?case by simp
next
  case (Cons c cs)
  show ?case
  proof (cases "c = d")
    case True
    then show ?thesis by simp
  next
    case False
    with Cons.IH show ?thesis by (cases "d \<in> set cs") simp_all
  qed
qed

lemma split_on_second:
  "subscript (split_on 96 s) 1
     = (case second_segment s of None \<Rightarrow> Inl IndexError | Some seg \<Rightarrow> Inr seg)"
proof (cases "96 \<in> set s")
  case False
  then have "split_on 96 s = [takeWhile (\<lambda>c. c \<noteq> 96) s]"
    by (subst split_on_Cons) simp
  with False show ?thesis by (simp add: subscript_def second_segment_def)
next
  case True
  let ?rest = "tl (dropWhile (\<lambda>c. c \<noteq> 96) s)"
  from True have "split_on 96 s = takeWhile (\<lambda>c. c \<noteq> 96) s # split_on 96 ?rest"
    by (subst split_on_Cons) simp
  moreover have "split_on 96 ?rest = takeWhile (\<lambda>c. c \<noteq> 96) ?rest
       # (if 96 \<in> set ?rest then split_on 96 (tl (dropWhile (\<lambda>c. c \<noteq> 96) ?rest)) else [])"
    by (rule split_on_Cons)
  ultimately show ?thesis using True by (simp add: subscript_def second_segment_def)
qed

lemma extract_payload_eq:
  "extract_payload w s =
     (case payload_text w of
        Some text \<Rightarrow> (Next text, s\<lparr>trace := trace s @ [Log Info ExtractedPayload]\<rparr>)
      | None \<Rightarrow>
          (case page_content w of
             Inr page \<Rightarrow> (Next page, s\<lparr>trace := trace s @ [Log Warning FallbackToPage]\<rparr>)
           | Inl e \<Rightarrow> (Raise e, s\<lparr>trace := trace s @ [Log Warning FallbackToPage]\<rparr>)))"
proof (cases "evaluate w")
  case (Inl e)
  then show ?thesis
    by (simp add: extract_payload_def payload_text_def monad_defs split: sum.splits)
next
  case (Inr script_content)
  note script = this
  show ?thesis
  proof (cases "second_segment script_content")
    case None
    with script split_on_second [of script_content] show ?thesis
      by (simp add: extract_payload_def payload_text_def monad_defs split: sum.splits)
  next
    case (Some seg)
    with script split_on_second [of script_content] show ?thesis
      by (simp add: extract_payload_def payload_text_def monad_defs split: sum.splits)
  qed
qed

text \<open>
  C4 (as amended). The Payload Extractor goes on with the decoded text of the second
  backtick-delimited segment of the script element when the lookup, the split and both
  decodings succeed. When one of them fails it reads the page content, goes on with it
  verbatim when that succeeds, and raises what \<^verbatim>\<open>page.content()\<close> raises when it does
  not.
\<close>

theorem payload_or_page:
  "extract_payload w s =
     (case payload_text w of
        Some text \<Rightarrow> (Next text, s\<lparr>trace := trace s @ [Log Info ExtractedPayload]\<rparr>)
      | None \<Rightarrow>
          (case page_content w of
             Inr page \<Rightarrow> (Next page, s\<lparr>trace := trace s @ [Log Warning FallbackToPage]\<rparr>)
           | Inl e \<Rightarrow> (Raise e, s\<lparr>trace := trace s @ [Log Warning FallbackToPage]\<rparr>)))"
  by (rule extract_payload_eq)

text \<open>
  C4 as stated fails: on a page without the script element whose content cannot be read
  either, the Payload Extractor raises.
\<close>

theorem lost_page_counterexample:
  "extract_payload lost_page_world initial_state
     = (Raise PlaywrightError, initial_state\<lparr>trace := [Log Warning FallbackToPage]\<rparr>)"
  by (simp add: extract_payload_def monad_defs lost_page_world_def initial_state_def)

lemma demo_payload_text: "payload_text demo_world = Some demo_html"
proof -
  from split_on_second [of demo_script] have "second_segment demo_script = Some demo_base64"
    by (simp add: demo_split subscript_def split: option.splits)
  then show ?thesis
    by (simp add: payload_text_def demo_world_def demo_b64decode_def demo_utf8_decode_def)
qed

theorem payload_or_page_witness:
  "extract_payload demo_world initial_state
     = (Next demo_html, initial_state\<lparr>trace := [Log Info ExtractedPayload]\<rparr>)
   \<and> extract_payload nosubmit_world initial_state
     = (Next plain_html, initial_state\<lparr>trace := [Log Warning FallbackToPage]\<rparr>)"
proof -
  have "payload_text nosubmit_world = None"
    by (simp add: payload_text_def nosubmit_world_def)
  moreover have "page_content nosubmit_world = Inr plain_html"
    by (simp add: nosubmit_world_def)
  ultimately show ?thesis
    using payload_or_page [of demo_world initial_state]
      payload_or_page [of nosubmit_world initial_state]
    by (simp add: demo_payload_text initial_state_def)
qed

section \<open>Closing the browser\<close>

text \<open>
  C8 as stated fails: in a run in which every stage succeeds and \<^verbatim>\<open>browser.close()\<close>
  raises, the exception leaves \<^verbatim>\<open>solve_quiz\<close>.
\<close>

theorem close_failure_counterexample:
  "solve_quiz IndexPy stuck_browser_world demo_request initial_state
     = (Raise PlaywrightError,
        \<lparr>browser = True, trace = butlast demo_trace, background_tasks = Some [demo_next_request]\<rparr>)"
  by (rule stuck_run)

theorem run_contained_witness:
  "fst (solve_quiz IndexPy demo_world demo_request initial_state) = Next ()
   \<and> Launch \<in> set (trace (snd (solve_quiz IndexPy demo_world demo_request initial_state)))
   \<and> (\<exists>pre. trace (snd (solve_quiz IndexPy demo_world demo_request initial_state))
                = pre @ [Close, Log Info BrowserClosed] \<and> Close \<notin> set pre)"
proof -
  have h: "Launch \<in> set (trace (snd (solve_quiz IndexPy demo_world demo_request initial_state)))"
    by (simp add: demo_run_index demo_trace_def)
  have c: "browser_close demo_world = Inr ()" by (simp add: demo_world_def)
  from run_contained [of IndexPy demo_world demo_request] h c
  show ?thesis by (simp add: demo_run_index)
qed

section \<open>Runs that stop at the Quiz Parser\<close>

lemma select_submission_none:
  "(select_submission urls = None) = (\<forall>x\<in>set urls. \<not> contains (str ''submit'') x)"
  by (induction urls) auto

lemma select_submission_first:
  "select_submission urls = Some su \<Longrightarrow>
     \<exists>i<length urls. urls ! i = su \<and> contains (str ''submit'') su
        \<and> (\<forall>j<i. \<not> contains (str ''submit'') (urls ! j))"
proof (induction urls)
  case Nil
  then show ?case by simp
next
  case (Cons x xs)
  show ?case
  proof (cases "contains (str ''submit'') x")
    case True
    with Cons.prems have "x = su" by simp
    with True have "(x # xs) ! 0 = su \<and> contains (str ''submit'') su
        \<and> (\<forall>j<0. \<not> contains (str ''submit'') ((x # xs) ! j))" by simp
    then show ?thesis by blast
  next
    case False
    with Cons.prems have "select_submission xs = Some su" by simp
    from Cons.IH [OF this] obtain i where i: "i < length xs" "xs ! i = su"
      "contains (str ''submit'') su" "\<forall>j<i. \<not> contains (str ''submit'') (xs ! j)" by blast
    have "\<not> contains (str ''submit'') ((x # xs) ! j)" if "j < Suc i" for j
      using that False i(4) by (cases j) simp_all
    with i have "Suc i < length (x # xs) \<and> (x # xs) ! Suc i = su \<and> contains (str ''submit'') su
        \<and> (\<forall>j<Suc i. \<not> contains (str ''submit'') ((x # xs) ! j))" by simp
    then show ?thesis by blast
  qed
qed

lemma quiz_details_next:
  "quiz_details w sp s = (Next (download_link, su), s') \<Longrightarrow>
     select_submission (findall_urls (unicode w) (get_text sp)) = Some su"
  unfolding quiz_details_def find_download_link_def find_submission_url_def
  by (auto simp: monad_defs tag_getitem_def split: option.splits sum.splits if_splits)

lemma quiz_details_no_submission:
  "select_submission (findall_urls (unicode w) (get_text sp)) = None \<Longrightarrow>
     fst (quiz_details w sp s) = Return"
  unfolding quiz_details_def find_download_link_def find_submission_url_def
  by (auto simp: monad_defs tag_getitem_def split: option.splits sum.splits)

lemma quiz_details_missing_href:
  "find_a sp = Some attrs \<Longrightarrow> map_of attrs (str ''href'') = None \<Longrightarrow>
     quiz_details w sp s = (Return, s\<lparr>trace := trace s @ [Log Error (ExtractionError KeyError)]\<rparr>)"
  unfolding quiz_details_def find_download_link_def
  by (simp add: monad_defs tag_getitem_def)

lemma quiz_details_selected:
  assumes "select_submission (findall_urls (unicode w) (get_text sp)) = Some su"
    and "find_a sp = None \<or> href_of sp \<noteq> None"
  shows "\<exists>s'. quiz_details w sp s = (Next (href_of sp, su), s')"
proof -
  from select_submission_first [OF assms(1)] have "contains (str ''submit'') su" by blast
  then have "su \<noteq> []" by (auto simp: str_def)
  with assms show ?thesis
    by (cases "find_a sp")
       (auto simp: quiz_details_def find_download_link_def find_submission_url_def monad_defs
          tag_getitem_def href_of_def)
qed

lemma triple_no_next:
  assumes "preserves I m" and "\<And>s x. fst (m s) \<noteq> Next x"
  shows "triple I m (\<lambda>x s. False) I"
  unfolding triple_def
proof (intro allI impI)
  fix s assume "I s"
  obtain r s' where ms: "m s = (r, s')" by (cases "m s")
  from preservesD [OF assms(1) \<open>I s\<close> ms] have "I s'" .
  moreover from assms(2) [of s] ms have "r \<noteq> Next x" for x by simp
  ultimately show "case m s of (Next x, s') \<Rightarrow> False | (Return, s') \<Rightarrow> I s' | (Raise e, s') \<Rightarrow> I s'"
    using ms by (cases r) auto
qed

text \<open>The document with which the Payload Extractor goes on is the document of the run.\<close>

lemma triple_extract_payload:
  assumes st: "stable ok I"
    and ok: "ok (Log Info ExtractedPayload)" "ok (Log Warning FallbackToPage)"
  shows "triple I (extract_payload w) (\<lambda>d s. I s \<and> run_document w = Inr d) I"
  unfolding triple_def
proof (intro allI impI)
  fix s assume "I s"
  with st ok have a: "I (s\<lparr>trace := trace s @ [Log Info ExtractedPayload]\<rparr>)"
    and b: "I (s\<lparr>trace := trace s @ [Log Warning FallbackToPage]\<rparr>)"
    by (auto simp: stable_def)
  show "case extract_payload w s of
          (Next d, s') \<Rightarrow> I s' \<and> run_document w = Inr d
        | (Return, s') \<Rightarrow> I s' | (Raise e, s') \<Rightarrow> I s'"
    using a b
    by (simp add: extract_payload_eq run_document_def split: option.splits sum.splits)
qed

lemma triple_pipeline_stopped:
  assumes st: "stable early_event I"
    and stop: "\<And>sp. run_soup w = Inr sp \<Longrightarrow> triple I (quiz_details w sp) (\<lambda>x s. False) I"
  shows "triple I (pipeline v w quiz_request) (\<lambda>u. I) I"
proof -
  have rest: "triple (\<lambda>s. I s \<and> run_soup w = Inr sp)
     (seq (logging Info (QuestionText (get_text sp))) (\<lambda>u.
      seq (quiz_details w sp) (\<lambda>(download_link, submission_url).
      seq (solve v w (get_text sp) download_link) (\<lambda>answer.
      submit w quiz_request submission_url answer)))) (\<lambda>u. I) I" for sp
  proof (cases "run_soup w = Inr sp")
    case False
    then show ?thesis by (simp add: triple_def)
  next
    case True
    have "triple I
     (seq (logging Info (QuestionText (get_text sp))) (\<lambda>u.
      seq (quiz_details w sp) (\<lambda>(download_link, submission_url).
      seq (solve v w (get_text sp) download_link) (\<lambda>answer.
      submit w quiz_request submission_url answer)))) (\<lambda>u. I) I"
      apply (rule triple_seq [OF preserves_logging [OF st, unfolded preserves_def]])
       apply (simp add: early_event_def)
      apply (rule triple_seq [OF stop [OF True]])
      apply (rule triple_false)
      done
    then show ?thesis by (rule triple_weaken) simp_all
  qed
  have parse: "triple (\<lambda>s. I s \<and> run_document w = Inr d) (call (beautiful_soup w d))
                 (\<lambda>sp s. I s \<and> run_soup w = Inr sp) I" for d
    by (rule triple_call) (simp_all add: run_soup_def)
  have payload: "triple I (extract_payload w) (\<lambda>d s. I s \<and> run_document w = Inr d) I"
    by (rule triple_extract_payload [OF st]) (simp_all add: early_event_def)
  show ?thesis
    unfolding pipeline_def
    apply (rule triple_seq [OF preserves_navigate [OF st, unfolded preserves_def]])
    apply (rule triple_seq [OF payload])
    apply (rule triple_seq [OF parse])
    apply (rule rest)
    done
qed

lemma run_invariant:
  assumes tp: "triple I (pipeline v w quiz_request) (\<lambda>u. I) I"
    and st: "stable ok I"
    and ok: "\<And>e. ok (Log Critical (Unexpected e))"
      "ok (Log Info (Received (url quiz_request)))" "ok (Log Info BrowserClosed)" "ok Close"
    and init: "I initial_state"
  shows "I (snd (solve_quiz v w quiz_request initial_state))"
proof -
  let ?body = "try_except (with_playwright w (pipeline v w quiz_request))
                 [(any_exception, \<lambda>e. logging Critical (Unexpected e))]"
  let ?s1 = "initial_state\<lparr>trace := trace initial_state @ [Log Info (Received (url quiz_request))]\<rparr>"
  from st have app: "I (s\<lparr>trace := trace s @ [ev]\<rparr>)" if "I s" "ok ev" "ev \<noteq> Launch" for s ev
    using that by (auto simp: stable_def)
  have "triple I ?body (\<lambda>u. I) I"
    by (rule triple_try [where E' = I])
       (auto intro!: triple_with_playwright tp preserves_logging [OF st, unfolded preserves_def]
          simp: ok)
  moreover from app [OF init, of "Log Info (Received (url quiz_request))"] have "I ?s1"
    by (simp add: ok)
  moreover obtain r s2 where body: "?body ?s1 = (r, s2)" by (cases "?body ?s1")
  ultimately have s2: "I s2" by (cases r) (auto simp: triple_def)
  from app [OF s2, of Close] have c1: "I (s2\<lparr>trace := trace s2 @ [Close]\<rparr>)" by (simp add: ok)
  from app [OF c1, of "Log Info BrowserClosed"]
  have c2: "I (s2\<lparr>trace := trace s2 @ [Close, Log Info BrowserClosed]\<rparr>)" by (simp add: ok)
  from s2 c1 c2 body show ?thesis
    by (simp add: solve_quiz_eq split: sum.splits)
qed

lemma stable_idle: "stable quiet_event idle"
  by (auto simp: stable_def idle_def quiet_event_def)

lemma stable_no_post_all: "stable not_Post no_post"
  by (auto simp: stable_def no_post_def not_Post_def)

text \<open>
  C5. The submission URL with which the Quiz Parser goes on is the first of the
  recognized URLs that contains "submit", and the recognized URLs are the matches of the
  pattern in the text from left to right, so that it is the leftmost of them that
  contains "submit". When such a URL exists and the link extraction does not fail, the
  parser goes on with it; when no recognized URL contains "submit" the parser returns,
  and a run whose document has no such URL makes no submission.
\<close>

theorem first_submit_url_selected:
  "(\<forall>download_link su s'. quiz_details w sp s = (Next (download_link, su), s') \<longrightarrow>
      (\<exists>i<length (findall_urls (unicode w) (get_text sp)).
          findall_urls (unicode w) (get_text sp) ! i = su \<and> contains (str ''submit'') su
          \<and> (\<forall>j<i. \<not> contains (str ''submit'') (findall_urls (unicode w) (get_text sp) ! j)))
      \<and> (\<exists>occ p. map snd occ = findall_urls (unicode w) (get_text sp)
            \<and> occurrences (unicode w) (get_text sp) occ
            \<and> (p, su) \<in> set occ
            \<and> (\<forall>(q, m)\<in>set occ. q < p \<longrightarrow> \<not> contains (str ''submit'') m)))
   \<and> ((\<exists>x\<in>set (findall_urls (unicode w) (get_text sp)). contains (str ''submit'') x)
        \<and> (find_a sp = None \<or> href_of sp \<noteq> None) \<longrightarrow>
      (\<exists>su s'. quiz_details w sp s = (Next (href_of sp, su), s')))
   \<and> ((\<forall>x\<in>set (findall_urls (unicode w) (get_text sp)). \<not> contains (str ''submit'') x) \<longrightarrow>
      fst (quiz_details w sp s) = Return)
   \<and> ((\<forall>sp'. run_soup w = Inr sp' \<longrightarrow>
          (\<forall>x\<in>set (findall_urls (unicode w) (get_text sp')). \<not> contains (str ''submit'') x)) \<longrightarrow>
      (\<forall>e\<in>set (trace (snd (solve_quiz v w quiz_request initial_state))). \<not> is_Post e))"
proof (intro conjI allI impI)
  fix download_link su s'
  assume "quiz_details w sp s = (Next (download_link, su), s')"
  from select_submission_first [OF quiz_details_next [OF this]]
  show "\<exists>i<length (findall_urls (unicode w) (get_text sp)).
          findall_urls (unicode w) (get_text sp) ! i = su \<and> contains (str ''submit'') su
          \<and> (\<forall>j<i. \<not> contains (str ''submit'') (findall_urls (unicode w) (get_text sp) ! j))" .
next
  fix download_link su s'
  assume "quiz_details w sp s = (Next (download_link, su), s')"
  from quiz_details_next [OF this]
  have sel: "select_submission (findall_urls (unicode w) (get_text sp)) = Some su" .
  from findall_urls_occurrences [of "unicode w" "get_text sp"] obtain occ
    where occ: "map snd occ = findall_urls (unicode w) (get_text sp)"
      "occurrences (unicode w) (get_text sp) occ" by blast
  from occ(2) have "sorted_wrt (\<lambda>(p, m) (q, n). p + length m \<le> q) occ"
    by (simp add: occurrences_def)
  from select_submission_leftmost [OF sel [folded occ(1)] this] occ
  show "\<exists>occ p. map snd occ = findall_urls (unicode w) (get_text sp)
            \<and> occurrences (unicode w) (get_text sp) occ
            \<and> (p, su) \<in> set occ
            \<and> (\<forall>(q, m)\<in>set occ. q < p \<longrightarrow> \<not> contains (str ''submit'') m)" by blast
next
  assume a: "(\<exists>x\<in>set (findall_urls (unicode w) (get_text sp)). contains (str ''submit'') x)
        \<and> (find_a sp = None \<or> href_of sp \<noteq> None)"
  then have "select_submission (findall_urls (unicode w) (get_text sp)) \<noteq> None"
    by (simp add: select_submission_none)
  then obtain su where su: "select_submission (findall_urls (unicode w) (get_text sp)) = Some su"
    by blast
  from quiz_details_selected [OF su, of s] a
  show "\<exists>su s'. quiz_details w sp s = (Next (href_of sp, su), s')" by blast
next
  assume "\<forall>x\<in>set (findall_urls (unicode w) (get_text sp)). \<not> contains (str ''submit'') x"
  then have "select_submission (findall_urls (unicode w) (get_text sp)) = None"
    by (simp add: select_submission_none)
  then show "fst (quiz_details w sp s) = Return" by (rule quiz_details_no_submission)
next
  assume h: "\<forall>sp'. run_soup w = Inr sp' \<longrightarrow>
          (\<forall>x\<in>set (findall_urls (unicode w) (get_text sp')). \<not> contains (str ''submit'') x)"
  have early: "stable early_event no_post"
    by (rule stable_mono [OF stable_no_post]) (simp add: early_event_def solver_event_def)
  have "triple no_post (quiz_details w sp') (\<lambda>x s. False) no_post"
    if "run_soup w = Inr sp'" for sp'
  proof (rule triple_no_next [OF preserves_quiz_details [OF early]])
    fix s x
    from h that have "select_submission (findall_urls (unicode w) (get_text sp')) = None"
      by (simp add: select_submission_none)
    from quiz_details_no_submission [OF this, of s]
    show "fst (quiz_details w sp' s) \<noteq> Next x" by simp
  qed
  from triple_pipeline_stopped [OF early this]
  have "triple no_post (pipeline v w quiz_request) (\<lambda>u. no_post) no_post" .
  from run_invariant [OF this stable_no_post_all]
  have "no_post (snd (solve_quiz v w quiz_request initial_state))"
    by (simp add: not_Post_def no_post_def initial_state_def)
  then show "\<forall>e\<in>set (trace (snd (solve_quiz v w quiz_request initial_state))). \<not> is_Post e"
    by (simp add: no_post_def)
qed

text \<open>
  C10. When the first anchor of the page has no \<^verbatim>\<open>href\<close>, the Quiz Parser logs the
  \<^verbatim>\<open>KeyError\<close> and returns; a run whose document has such a first anchor downloads
  nothing, calculates no answer and submits nothing.
\<close>

theorem missing_href_aborts:
  "(\<forall>attrs. find_a sp = Some attrs \<and> map_of attrs (str ''href'') = None \<longrightarrow>
      quiz_details w sp s
        = (Return, s\<lparr>trace := trace s @ [Log Error (ExtractionError KeyError)]\<rparr>))
   \<and> (\<forall>sp' attrs. run_soup w = Inr sp' \<and> find_a sp' = Some attrs
          \<and> map_of attrs (str ''href'') = None \<longrightarrow>
      (\<forall>e\<in>set (trace (snd (solve_quiz v w quiz_request initial_state))).
          \<not> is_Post e \<and> \<not> is_Get e \<and> \<not> is_CalculatedSum e))"
proof (intro conjI allI impI)
  fix attrs
  assume "find_a sp = Some attrs \<and> map_of attrs (str ''href'') = None"
  then show "quiz_details w sp s
        = (Return, s\<lparr>trace := trace s @ [Log Error (ExtractionError KeyError)]\<rparr>)"
    by (simp add: quiz_details_missing_href)
next
  fix sp' attrs
  assume h: "run_soup w = Inr sp' \<and> find_a sp' = Some attrs \<and> map_of attrs (str ''href'') = None"
  have early: "stable early_event idle"
    by (rule stable_mono [OF stable_idle]) (simp add: early_event_def quiet_event_def)
  have "triple idle (quiz_details w sp'') (\<lambda>x s. False) idle"
    if "run_soup w = Inr sp''" for sp''
  proof (rule triple_no_next [OF preserves_quiz_details [OF early]])
    fix s x
    from h that have "find_a sp'' = Some attrs" "map_of attrs (str ''href'') = None"
      by simp_all
    from quiz_details_missing_href [OF this, of w s]
    show "fst (quiz_details w sp'' s) \<noteq> Next x" by simp
  qed
  from triple_pipeline_stopped [OF early this]
  have "triple idle (pipeline v w quiz_request) (\<lambda>u. idle) idle" .
  from run_invariant [OF this stable_idle]
  have "idle (snd (solve_quiz v w quiz_request initial_state))"
    by (simp add: quiet_event_def idle_def initial_state_def)
  then show "\<forall>e\<in>set (trace (snd (solve_quiz v w quiz_request initial_state))).
          \<not> is_Post e \<and> \<not> is_Get e \<and> \<not> is_CalculatedSum e"
    by (simp add: idle_def quiet_event_def)
qed

lemma choice_urls:
  "findall_urls no_ucd (str ''https://a.org https://submit.b https://submit.c'')
     = [str ''https://a.org'', str ''https://submit.b'', str ''https://submit.c'']"
  by code_simp

lemma choice_contains:
  "\<not> contains (str ''submit'') (str ''https://a.org'')"
  "contains (str ''submit'') (str ''https://submit.b'')"
  by code_simp+

lemma nosubmit_run_soup: "run_soup nosubmit_world = Inr plain_soup"
  by (simp add: run_soup_def run_document_def payload_text_def nosubmit_world_def
        demo_world_def demo_parser_def documents_distinct)

lemma nohref_run_soup: "run_soup nohref_world = Inr nohref_soup"
  by (simp add: run_soup_def run_document_def payload_text_def nohref_world_def
        demo_world_def demo_parser_def documents_distinct)

lemma nohref_run:
  "solve_quiz MainPy nohref_world demo_request initial_state
     = (Return,
        \<lparr>browser = True,
         trace = [Log Info (Received (url demo_request)), Launch, Goto (url demo_request),
                  Log Info (NavigatedTo (url demo_request)), Log Warning FallbackToPage,
                  Log Info (QuestionText demo_text), Log Error (ExtractionError KeyError),
                  Close, Log Info BrowserClosed],
         background_tasks = None\<rparr>)"
  by (simp add: run_defs world_defs nohref_world_def nohref_soup_def documents_distinct)

theorem first_submit_url_selected_witness:
  "(\<exists>s'. quiz_details demo_world choice_soup initial_state
            = (Next (Some (str ''https://files.example.org''), str ''https://submit.b''), s'))
   \<and> fst (quiz_details nosubmit_world plain_soup initial_state) = Return
   \<and> run_soup nosubmit_world = Inr plain_soup
   \<and> filter is_Post (trace (snd (solve_quiz IndexPy nosubmit_world demo_request initial_state))) = []"
proof -
  note choice = first_submit_url_selected
                  [of demo_world choice_soup initial_state IndexPy demo_request]
  note plain = first_submit_url_selected
                 [of nosubmit_world plain_soup initial_state IndexPy demo_request]
  have u: "unicode demo_world = no_ucd" "unicode nosubmit_world = no_ucd"
    by (simp_all add: demo_world_def nosubmit_world_def)
  have urls: "findall_urls (unicode demo_world) (get_text choice_soup)
     = [str ''https://a.org'', str ''https://submit.b'', str ''https://submit.c'']"
    by (simp add: u choice_soup_def choice_urls)
  have href: "href_of choice_soup = Some (str ''https://files.example.org'')"
    by (simp add: href_of_def choice_soup_def str_def)
  have "(\<exists>x\<in>set (findall_urls (unicode demo_world) (get_text choice_soup)).
           contains (str ''submit'') x)
        \<and> (find_a choice_soup = None \<or> href_of choice_soup \<noteq> None)"
    by (simp add: urls href choice_contains)
  with choice obtain su s' where
    q: "quiz_details demo_world choice_soup initial_state = (Next (href_of choice_soup, su), s')"
    by blast
  with choice obtain i where i: "i < length (findall_urls (unicode demo_world) (get_text choice_soup))"
    "findall_urls (unicode demo_world) (get_text choice_soup) ! i = su"
    "\<forall>j<i. \<not> contains (str ''submit'') (findall_urls (unicode demo_world) (get_text choice_soup) ! j)"
    by blast
  from i(1) have "i = 0 \<or> i = 1 \<or> i = 2" by (auto simp: urls)
  then have "su = str ''https://submit.b''"
  proof (elim disjE)
    assume "i = 0"
    with i(2) have "su = str ''https://a.org''" by (simp add: urls)
    moreover from choice q have "contains (str ''submit'') su" by blast
    ultimately show ?thesis by (simp add: choice_contains)
  next
    assume "i = 1"
    with i(2) show ?thesis by (simp add: urls)
  next
    assume "i = 2"
    with i(3) have "\<not> contains (str ''submit'')
        (findall_urls (unicode demo_world) (get_text choice_soup) ! 1)" by simp
    then show ?thesis by (simp add: urls choice_contains)
  qed
  with q href have c1: "\<exists>s'. quiz_details demo_world choice_soup initial_state
            = (Next (Some (str ''https://files.example.org''), str ''https://submit.b''), s')"
    by simp
  have none: "\<forall>x\<in>set (findall_urls (unicode nosubmit_world) (get_text plain_soup)).
           \<not> contains (str ''submit'') x"
    by (simp add: u plain_soup_def plain_urls plain_no_submit)
  with plain have c2: "fst (quiz_details nosubmit_world plain_soup initial_state) = Return"
    by blast
  have "\<forall>sp'. run_soup nosubmit_world = Inr sp' \<longrightarrow>
          (\<forall>x\<in>set (findall_urls (unicode nosubmit_world) (get_text sp')).
             \<not> contains (str ''submit'') x)"
    using none by (simp add: nosubmit_run_soup)
  with plain have "\<forall>e\<in>set (trace (snd (solve_quiz IndexPy nosubmit_world demo_request initial_state))).
                     \<not> is_Post e" by blast
  then have c4: "filter is_Post (trace (snd (solve_quiz IndexPy nosubmit_world demo_request initial_state))) = []"
    by (simp add: filter_empty_conv)
  from c1 c2 c4 nosubmit_run_soup show ?thesis by blast
qed

theorem missing_href_aborts_witness:
  "quiz_details nohref_world nohref_soup initial_state
     = (Return, initial_state\<lparr>trace := trace initial_state @ [Log Error (ExtractionError KeyError)]\<rparr>)
   \<and> run_soup nohref_world = Inr nohref_soup
   \<and> filter (\<lambda>e. is_Post e \<or> is_Get e \<or> is_CalculatedSum e)
        (trace (snd (solve_quiz MainPy nohref_world demo_request initial_state))) = []
   \<and> Log Error (ExtractionError KeyError)
        \<in> set (trace (snd (solve_quiz MainPy nohref_world demo_request initial_state)))"
proof -
  note inst = missing_href_aborts [of nohref_soup nohref_world initial_state MainPy demo_request]
  have a: "find_a nohref_soup = Some [(str ''id'', str ''top'')]
           \<and> map_of [(str ''id'', str ''top'')] (str ''href'') = None"
    by (simp add: nohref_soup_def str_def)
  with inst have c1: "quiz_details nohref_world nohref_soup initial_state
     = (Return, initial_state\<lparr>trace := trace initial_state @ [Log Error (ExtractionError KeyError)]\<rparr>)"
    by blast
  from a nohref_run_soup have "run_soup nohref_world = Inr nohref_soup
      \<and> find_a nohref_soup = Some [(str ''id'', str ''top'')]
      \<and> map_of [(str ''id'', str ''top'')] (str ''href'') = None" by simp
  with inst have "\<forall>e\<in>set (trace (snd (solve_quiz MainPy nohref_world demo_request initial_state))).
          \<not> is_Post e \<and> \<not> is_Get e \<and> \<not> is_CalculatedSum e" by blast
  then have c2: "filter (\<lambda>e. is_Post e \<or> is_Get e \<or> is_CalculatedSum e)
        (trace (snd (solve_quiz MainPy nohref_world demo_request initial_state))) = []"
    by (auto simp: filter_empty_conv)
  have c3: "Log Error (ExtractionError KeyError)
        \<in> set (trace (snd (solve_quiz MainPy nohref_world demo_request initial_state)))"
    by (simp add: nohref_run)
  from c1 c2 c3 nohref_run_soup show ?thesis by blast
qed

end
